theory Spec2Isabelle
  imports Main "HOL-Library.Word"
begin

section \<open>Data model of \<^verbatim>\<open>main.go\<close>\<close>

text \<open>
  The program copies a container image between two ECR repositories. Its only source file
  is \<^verbatim>\<open>main.go\<close>. The registry (the AWS SDK client), the HTTP download, the JSON
  decoder and the SHA-256 implementation are libraries outside the repository: they are
  collected in the record \<open>env\<close> below, and every function of the program takes that
  record as its first argument. Every call the program makes to the registry or to the
  network is appended to a trace (a \<open>call list\<close>), which is threaded through the
  functions; a collaborator answers as a function of the whole trace up to and including
  the request, so its answers may depend on everything that happened before.

  Conventions:
  \<^item> \<^verbatim>\<open>int64\<close> values that the program does arithmetic on (\<^verbatim>\<open>partFirstByte\<close>,
    \<^verbatim>\<open>partLastByte\<close>) are 64-bit words, read as signed numbers with \<open>sint\<close>;
    \<^verbatim>\<open>PartSize\<close> and \<^verbatim>\<open>Size\<close> are only compared or passed on and are integers;
    \<^verbatim>\<open>partSize\<close> and \<^verbatim>\<open>n\<close> are slice lengths and are natural numbers
    (\<^verbatim>\<open>int\<close> is taken to be 64 bits wide, so \<^verbatim>\<open>int(*upload.PartSize)\<close> keeps the value);
  \<^item> a Go \<^verbatim>\<open>error\<close> is an \<open>error option\<close> (\<open>None\<close> is \<^verbatim>\<open>nil\<close>);
  \<^item> the output members of the SDK that the program dereferences are taken to be
    populated whenever the SDK call returned without error;
  \<^item> \<^verbatim>\<open>log.Printf\<close> only writes to the standard error stream and is left out, and so
    is the deferred \<^verbatim>\<open>resp.Body.Close()\<close>; the status of the HTTP response is not
    looked at by the program, so the model has none;
  \<^item> a function that may loop forever returns an \<open>option\<close>: \<open>None\<close> is "never returns".
\<close>

type_synonym byte = "8 word"
type_synonym int64 = "64 word"

record imageLayer =
  MediaType :: string
  Size :: int
  Digest :: string

record manifest =
  Config :: imageLayer
  Layers :: "imageLayer list"

text \<open>
  Errors. \<open>Wrap f args e\<close> is \<^verbatim>\<open>fmt.Errorf(f, args..., e)\<close> with the verb \<^verbatim>\<open>%w\<close>
  for \<open>e\<close>; \<open>Errorf f args\<close> is \<^verbatim>\<open>fmt.Errorf\<close> without a wrapped error.
\<close>

datatype arg = Str string | Num int

datatype error = EOF | ExtErr string | Errorf string "arg list" | Wrap string "arg list" error

text \<open>\<^verbatim>\<open>errors.Is(err, io.EOF)\<close>: follows the chain of wrapped errors.\<close>

fun is_EOF :: "error \<Rightarrow> bool" where
  "is_EOF EOF = True"
| "is_EOF (ExtErr m) = False"
| "is_EOF (Errorf f as) = False"
| "is_EOF (Wrap f as e) = is_EOF e"

definition errors_Is_EOF :: "error option \<Rightarrow> bool" where
  "errors_Is_EOF err = (case err of None \<Rightarrow> False | Some e \<Rightarrow> is_EOF e)"

datatype 'a outcome = Done 'a | Failed error | Panicked string

subsection \<open>The download stream\<close>

text \<open>
  \<^verbatim>\<open>resp.Body\<close> is an \<^verbatim>\<open>io.Reader\<close>. The stream is modelled by what the network
  still has to deliver: a list of events, each a fragment of bytes or a failure. A call
  \<^verbatim>\<open>Read(p)\<close> with \<open>c = len(p)\<close> delivers the head fragment, or its first \<open>c\<close> bytes
  when it does not fit (the rest stays at the head). An empty fragment is a read of zero
  bytes without an error. When nothing is pending the read returns \<open>(0, EOF)\<close>. With
  \<open>eof_with_data\<close> the read that delivers the last bytes reports \<^verbatim>\<open>io.EOF\<close> together
  with them, as \<^verbatim>\<open>io.Reader\<close> allows.
\<close>

datatype event = Data "byte list" | Fail error

record reader =
  pending :: "event list"
  eof_with_data :: bool

definition Read :: "reader \<Rightarrow> nat \<Rightarrow> (byte list \<times> error option) \<times> reader" where
  "Read r c =
     (case pending r of
        [] \<Rightarrow> (([], Some EOF), r)
      | Fail e # es \<Rightarrow> (([], Some e), r\<lparr>pending := es\<rparr>)
      | Data d # es \<Rightarrow>
          (if length d \<le> c
           then ((d, if es = [] \<and> eof_with_data r then Some EOF else None), r\<lparr>pending := es\<rparr>)
           else ((take c d, None), r\<lparr>pending := Data (drop c d) # es\<rparr>)))"

subsection \<open>The collaborators\<close>

datatype imageId = ImageDigest string | ImageTag string

record layerAvail =
  LayerAvailability :: string
  LayerDigest :: string

record upload =
  UploadId :: string
  PartSize :: int

datatype call =
    BatchGetImage string imageId
  | BatchCheckLayerAvailability string "string list"
  | GetDownloadUrlForLayer string string
  | InitiateLayerUpload string
  | HttpGet string
  | UploadLayerPart "byte list" int64 int64 string string
  | CompleteLayerUpload string string "string list"
  | PutImage string string "string option"

text \<open>
  The fields of \<open>UploadLayerPart\<close> are, in the order of the source,
  \<^verbatim>\<open>LayerPartBlob\<close>, \<^verbatim>\<open>PartFirstByte\<close>, \<^verbatim>\<open>PartLastByte\<close>, \<^verbatim>\<open>RepositoryName\<close>,
  \<^verbatim>\<open>UploadId\<close>; those of \<open>PutImage\<close> are \<^verbatim>\<open>RepositoryName\<close>, \<^verbatim>\<open>ImageManifest\<close>,
  \<^verbatim>\<open>ImageTag\<close> (\<open>None\<close> when the field is left unset).

  Each collaborator receives the trace whose last element is the request it answers.
  \<open>digest_of\<close> is the hash library: the digest of a byte string under the named algorithm.
\<close>

record env =
  batchGetImage :: "call list \<Rightarrow> error + string list"
  batchCheckLayerAvailability :: "call list \<Rightarrow> error + layerAvail list"
  getDownloadUrlForLayer :: "call list \<Rightarrow> error + string"
  initiateLayerUpload :: "call list \<Rightarrow> error + upload"
  httpGet :: "call list \<Rightarrow> error + reader"
  uploadLayerPart :: "call list \<Rightarrow> error option"
  completeLayerUpload :: "call list \<Rightarrow> error option"
  putImage :: "call list \<Rightarrow> error option"
  json_Unmarshal :: "string \<Rightarrow> error + manifest"
  digest_of :: "string \<Rightarrow> byte list \<Rightarrow> byte list"

subsection \<open>The hash accumulator\<close>

text \<open>
  A \<^verbatim>\<open>hash.Hash\<close> is modelled by its algorithm and the bytes written to it so far;
  \<^verbatim>\<open>Sum(nil)\<close> is the library's digest of those bytes.
\<close>

record hash =
  algo :: string
  written :: "byte list"

definition sha256_New :: hash where
  "sha256_New = \<lparr>algo = ''sha256'', written = []\<rparr>"

definition Write :: "hash \<Rightarrow> byte list \<Rightarrow> hash" where
  "Write h p = h\<lparr>written := written h @ p\<rparr>"

definition Sum :: "env \<Rightarrow> hash \<Rightarrow> byte list" where
  "Sum env h = digest_of env (algo h) (written h)"

subsection \<open>Formatting\<close>

text \<open>
  \<^verbatim>\<open>%064x\<close> applied to a byte slice: two lower-case hexadecimal digits per byte,
  padded on the left with \<open>0\<close> to a width of 64.
\<close>

definition hexdigit :: "nat \<Rightarrow> char" where
  "hexdigit n = ''0123456789abcdef'' ! (n mod 16)"

definition hex_bytes :: "byte list \<Rightarrow> string" where
  "hex_bytes bs = concat (map (\<lambda>w. [hexdigit (unat w div 16), hexdigit (unat w mod 16)]) bs)"

definition fmt_064x :: "byte list \<Rightarrow> string" where
  "fmt_064x bs = replicate (64 - length (hex_bytes bs)) (CHR ''0'') @ hex_bytes bs"

section \<open>The program\<close>

subsection \<open>\<^verbatim>\<open>getManifest\<close>\<close>

text \<open>\<^verbatim>\<open>strings.Cut(s, ":")\<close> for a separator of one character.\<close>

definition Cut :: "string \<Rightarrow> char \<Rightarrow> string \<times> string \<times> bool" where
  "Cut s sep =
     (if sep \<in> set s
      then (takeWhile (\<lambda>c. c \<noteq> sep) s, tl (dropWhile (\<lambda>c. c \<noteq> sep) s), True)
      else (s, [], False))"

text \<open>\<^verbatim>\<open>hexRe = regexp.MustCompile(`^[a-f0-9]+$`)\<close>.\<close>

definition hexRe_MatchString :: "string \<Rightarrow> bool" where
  "hexRe_MatchString s = (s \<noteq> [] \<and> list_all (\<lambda>c. c \<in> set ''abcdef0123456789'') s)"

definition getManifest ::
  "env \<Rightarrow> string \<Rightarrow> string \<Rightarrow> call list \<Rightarrow> (string \<times> imageLayer list) outcome \<times> call list"
where
  "getManifest env sourceRepo imageDigestOrTag log =
     (let imageId =
            (case Cut imageDigestOrTag (CHR '':'') of
               (_, hex, didCut) \<Rightarrow>
                 if didCut \<and> hexRe_MatchString hex then ImageDigest imageDigestOrTag
                 else ImageTag imageDigestOrTag);
          log1 = log @ [BatchGetImage sourceRepo imageId]
      in case batchGetImage env log1 of
           Inl err \<Rightarrow> (Failed (Wrap ''BatchGetImage: %w'' [] err), log1)
         | Inr Images \<Rightarrow>
             if length Images \<noteq> 1
             then (Failed (Errorf ''BatchGetImage: Got %d Images'' [Num (int (length Images))]), log1)
             else
               (case json_Unmarshal env (Images ! 0) of
                  Inl err \<Rightarrow> (Failed (Wrap ''Unmarshal ImageManifest: %w'' [] err), log1)
                | Inr m \<Rightarrow>
                    (let allLayers = Layers m @ [Config m]
                     in (Done (Images ! 0, allLayers), log1))))"

subsection \<open>\<^verbatim>\<open>checkLayerAvails\<close>\<close>

text \<open>
  \<^verbatim>\<open>destHasLayer\<close> is a \<^verbatim>\<open>map[string]bool\<close>; reading a key that is not in the map
  gives \<^verbatim>\<open>false\<close>.
\<close>

definition lookup_bool :: "(string \<rightharpoonup> bool) \<Rightarrow> string \<Rightarrow> bool" where
  "lookup_bool m k = (case m k of None \<Rightarrow> False | Some v \<Rightarrow> v)"

text \<open>The loop over \<^verbatim>\<open>avails.Layers\<close>, from the map built so far.\<close>

primrec markAvailable :: "layerAvail list \<Rightarrow> (string \<rightharpoonup> bool) \<Rightarrow> (string \<rightharpoonup> bool)" where
  "markAvailable [] destHasLayer = destHasLayer"
| "markAvailable (la # las) destHasLayer =
     markAvailable las
       (if LayerAvailability la = ''AVAILABLE'' then destHasLayer(LayerDigest la \<mapsto> True)
        else destHasLayer)"

text \<open>The loop over \<^verbatim>\<open>layers\<close>, from the \<^verbatim>\<open>unavailLayers\<close> collected so far.\<close>

primrec collectUnavail ::
  "imageLayer list \<Rightarrow> (string \<rightharpoonup> bool) \<Rightarrow> imageLayer list \<Rightarrow> imageLayer list"
where
  "collectUnavail [] destHasLayer unavailLayers = unavailLayers"
| "collectUnavail (l # ls) destHasLayer unavailLayers =
     collectUnavail ls destHasLayer
       (if lookup_bool destHasLayer (Digest l) then unavailLayers else unavailLayers @ [l])"

definition checkLayerAvails ::
  "env \<Rightarrow> string \<Rightarrow> imageLayer list \<Rightarrow> call list \<Rightarrow> imageLayer list outcome \<times> call list"
where
  "checkLayerAvails env destRepo layers log =
     (let log1 = log @ [BatchCheckLayerAvailability destRepo (map Digest layers)]
      in case batchCheckLayerAvailability env log1 of
           Inl err \<Rightarrow> (Failed (Wrap ''BatchCheckLayerAvailability: %w'' [] err), log1)
         | Inr avails \<Rightarrow>
             (let destHasLayer = markAvailable avails Map.empty
              in (Done (collectUnavail layers destHasLayer []), log1)))"

subsection \<open>\<^verbatim>\<open>copyLayer\<close>\<close>

text \<open>
  The inner loop (label \<^verbatim>\<open>downloadPart\<close>). Its state is the stream, the buffer \<open>b\<close>
  and the fill \<open>partSize\<close>; it returns them with the flag \<^verbatim>\<open>lastPart\<close>, or the error
  of a failed read. \<^verbatim>\<open>Read(b[partSize:])\<close> offers \<open>length b - partSize\<close> bytes of room and
  writes what it delivers at offset \<open>partSize\<close> of \<open>b\<close>.
\<close>

partial_function (option) downloadPart ::
  "string \<Rightarrow> int \<Rightarrow> reader \<Rightarrow> byte list \<Rightarrow> nat \<Rightarrow> (reader \<times> byte list \<times> nat \<times> bool) outcome option"
where
  "downloadPart layerDigest partSz body b partSize =
     (case Read body (length b - partSize) of
        ((d, err), body') \<Rightarrow>
          if err \<noteq> None \<and> \<not> errors_Is_EOF err
          then Some (Failed (Wrap ''Read(%s): %w'' [Str layerDigest] (the err)))
          else if length d = 0
          then (if errors_Is_EOF err then Some (Done (body', b, partSize, True))
                else downloadPart layerDigest partSz body' b partSize)
          else
            (let b' = take partSize b @ d @ drop (partSize + length d) b;
                 partSize' = partSize + length d
             in if int partSize' = partSz then Some (Done (body', b', partSize', False))
                else downloadPart layerDigest partSz body' b' partSize'))"

declare downloadPart.simps [code]

text \<open>
  The outer loop \<^verbatim>\<open>for !lastPart\<close>. Its state is the stream, the buffer, the running
  offset \<^verbatim>\<open>partFirstByte\<close>, the hash accumulator and the trace. It returns the
  accumulator when the loop is left normally.
\<close>

partial_function (option) copyParts ::
  "env \<Rightarrow> string \<Rightarrow> string \<Rightarrow> upload \<Rightarrow> reader \<Rightarrow> byte list \<Rightarrow> int64 \<Rightarrow> hash \<Rightarrow> call list
     \<Rightarrow> (hash outcome \<times> call list) option"
where
  "copyParts env destRepo layerDigest up body b partFirstByte sha log =
     (case downloadPart layerDigest (PartSize up) body b 0 of
        None \<Rightarrow> None
      | Some (Failed e) \<Rightarrow> Some (Failed e, log)
      | Some (Panicked m) \<Rightarrow> Some (Panicked m, log)
      | Some (Done (body', b', partSize, lastPart)) \<Rightarrow>
          if partSize = 0
          then (if lastPart then Some (Done sha, log)
                else Some (Panicked ''internal logic error'', log))
          else
            (let partLastByte = partFirstByte + word_of_nat partSize - 1;
                 log1 = log @ [UploadLayerPart (take partSize b') partFirstByte partLastByte
                                 destRepo (UploadId up)]
             in case uploadLayerPart env log1 of
                  Some err \<Rightarrow>
                    Some (Failed (Wrap ''UploadLayerPart(%s) (%d-%d): %w''
                            [Str layerDigest, Num (sint partFirstByte), Num (sint partLastByte)] err),
                          log1)
                | None \<Rightarrow>
                    (let sha' = Write sha (take partSize b');
                         partFirstByte' = partFirstByte + word_of_nat partSize
                     in if lastPart then Some (Done sha', log1)
                        else copyParts env destRepo layerDigest up body' b' partFirstByte' sha' log1)))"

declare copyParts.simps [code]

text \<open>
  \<^verbatim>\<open>make([]byte, n)\<close> panics for a negative \<open>n\<close>; otherwise the buffer holds \<open>n\<close> zero
  bytes.
\<close>

definition copyLayer ::
  "env \<Rightarrow> string \<Rightarrow> string \<Rightarrow> string \<Rightarrow> call list \<Rightarrow> (unit outcome \<times> call list) option"
where
  "copyLayer env sourceRepo destRepo layerDigest log =
     (let log1 = log @ [GetDownloadUrlForLayer sourceRepo layerDigest]
      in case getDownloadUrlForLayer env log1 of
           Inl err \<Rightarrow>
             Some (Failed (Wrap ''GetDownloadUrlForLayer(%s): %w'' [Str layerDigest] err), log1)
         | Inr dlUrl \<Rightarrow>
             (let log2 = log1 @ [InitiateLayerUpload destRepo]
              in case initiateLayerUpload env log2 of
                   Inl err \<Rightarrow> Some (Failed (Wrap ''InitiateLayerUpload: %w'' [] err), log2)
                 | Inr up \<Rightarrow>
                     (let log3 = log2 @ [HttpGet dlUrl]
                      in case httpGet env log3 of
                           Inl err \<Rightarrow>
                             Some (Failed (Wrap ''http GET layer(%s): %w'' [Str layerDigest] err), log3)
                         | Inr body \<Rightarrow>
                             if PartSize up < 0
                             then Some (Panicked ''makeslice: len out of range'', log3)
                             else
                               (case copyParts env destRepo layerDigest up body
                                       (replicate (nat (PartSize up)) 0) 0 sha256_New log3 of
                                  None \<Rightarrow> None
                                | Some (Failed e, log4) \<Rightarrow> Some (Failed e, log4)
                                | Some (Panicked m, log4) \<Rightarrow> Some (Panicked m, log4)
                                | Some (Done sha, log4) \<Rightarrow>
                                    (let uploadDigest = UploadId up @ '':'' @ fmt_064x (Sum env sha);
                                         log5 = log4 @ [CompleteLayerUpload destRepo (UploadId up)
                                                          [uploadDigest]]
                                     in case completeLayerUpload env log5 of
                                          Some err \<Rightarrow>
                                            Some (Failed (Wrap ''CompleteLayerUpload(%s): %w''
                                                    [Str layerDigest] err), log5)
                                        | None \<Rightarrow> Some (Done (), log5))))))"

subsection \<open>\<^verbatim>\<open>copyLayers\<close>, \<^verbatim>\<open>putManifest\<close>, \<^verbatim>\<open>main\<close>\<close>

fun copyLayers ::
  "env \<Rightarrow> string \<Rightarrow> string \<Rightarrow> imageLayer list \<Rightarrow> call list \<Rightarrow> (unit outcome \<times> call list) option"
where
  "copyLayers env sourceRepo destRepo [] log = Some (Done (), log)"
| "copyLayers env sourceRepo destRepo (l # ls) log =
     (case copyLayer env sourceRepo destRepo (Digest l) log of
        None \<Rightarrow> None
      | Some (Failed err, log') \<Rightarrow> Some (Failed (Wrap ''copyLayer: %w'' [] err), log')
      | Some (Panicked m, log') \<Rightarrow> Some (Panicked m, log')
      | Some (Done _, log') \<Rightarrow> copyLayers env sourceRepo destRepo ls log')"

definition putManifest ::
  "env \<Rightarrow> string \<Rightarrow> string \<Rightarrow> string \<Rightarrow> call list \<Rightarrow> unit outcome \<times> call list"
where
  "putManifest env destRepo newTag manifest log =
     (let log1 = log @ [PutImage destRepo manifest (if newTag \<noteq> '''' then Some newTag else None)]
      in case putImage env log1 of
           Some err \<Rightarrow> (Failed (Wrap ''PutImage: %w'' [] err), log1)
         | None \<Rightarrow> (Done (), log1))"

text \<open>
  \<^verbatim>\<open>main\<close> on the argument vector \<^verbatim>\<open>os.Args\<close> (the program name first).
  \<^verbatim>\<open>log.Fatal(err)\<close> ends the process with status 1 after printing \<open>err\<close>; the usage
  message ends it with status 1 as well. The session of the SDK is taken as given.
\<close>

datatype exit = Success | Usage | Fatal error | Crash string

definition main :: "env \<Rightarrow> string list \<Rightarrow> (exit \<times> call list) option" where
  "main env Args =
     (if length Args < 4 \<or> length Args > 5 then Some (Usage, [])
      else
        (let sourceRepo = Args ! 1;
             imageDigestOrTag = Args ! 2;
             destRepo = Args ! 3;
             newTag = (if length Args = 5 then Args ! 4 else '''')
         in case getManifest env sourceRepo imageDigestOrTag [] of
              (Failed err, log1) \<Rightarrow> Some (Fatal err, log1)
            | (Panicked m, log1) \<Rightarrow> Some (Crash m, log1)
            | (Done (manifest, layers), log1) \<Rightarrow>
                (case checkLayerAvails env destRepo layers log1 of
                   (Failed err, log2) \<Rightarrow> Some (Fatal err, log2)
                 | (Panicked m, log2) \<Rightarrow> Some (Crash m, log2)
                 | (Done neededLayers, log2) \<Rightarrow>
                     (case copyLayers env sourceRepo destRepo neededLayers log2 of
                        None \<Rightarrow> None
                      | Some (Failed err, log3) \<Rightarrow> Some (Fatal err, log3)
                      | Some (Panicked m, log3) \<Rightarrow> Some (Crash m, log3)
                      | Some (Done _, log3) \<Rightarrow>
                          (case putManifest env destRepo newTag manifest log3 of
                             (Failed err, log4) \<Rightarrow> Some (Fatal err, log4)
                           | (Panicked m, log4) \<Rightarrow> Some (Crash m, log4)
                           | (Done _, log4) \<Rightarrow> Some (Success, log4))))))"

section \<open>Notions used to state the properties\<close>

text \<open>
  The bytes a stream delivers when it is read to its end, and the streams that never
  fail: the blob is the concatenation of the fragments, however they are cut.
\<close>

fun event_data :: "event \<Rightarrow> byte list" where
  "event_data (Data d) = d"
| "event_data (Fail e) = []"

fun is_Data :: "event \<Rightarrow> bool" where
  "is_Data (Data d) = True"
| "is_Data (Fail e) = False"

definition content :: "reader \<Rightarrow> byte list" where
  "content r = concat (map event_data (pending r))"

definition clean :: "reader \<Rightarrow> bool" where
  "clean r = list_all is_Data (pending r)"

text \<open>
  Cutting a byte string into consecutive pieces of \<open>n\<close> bytes, the last one possibly
  shorter and never empty.
\<close>

function split_parts :: "nat \<Rightarrow> byte list \<Rightarrow> byte list list" where
  "split_parts n xs = (if n = 0 \<or> xs = [] then [] else take n xs # split_parts n (drop n xs))"
  by pat_completeness auto
termination
  by (relation "measure (\<lambda>(n, xs). length xs)") auto

declare split_parts.simps [simp del]

text \<open>
  The upload requests for a list of parts, the first of which starts at byte \<open>off\<close>:
  each carries the range from the running offset to the offset of its last byte, as
  64-bit words.
\<close>

fun part_calls :: "string \<Rightarrow> string \<Rightarrow> nat \<Rightarrow> byte list list \<Rightarrow> call list" where
  "part_calls repo uid off [] = []"
| "part_calls repo uid off (p # ps) =
     UploadLayerPart p (word_of_nat off) (word_of_nat off + word_of_nat (length p) - 1) repo uid
       # part_calls repo uid (off + length p) ps"

text \<open>
  The requests that open the transfer of one blob, the hypothesis that the collaborators
  answer them (\<open>opens\<close>: a download location, an upload session and a stream), the
  request that commits the upload with a digest, and the result of \<^verbatim>\<open>copyLayer\<close>
  that follows from the registry's answer to it.
\<close>

definition session_calls :: "string \<Rightarrow> string \<Rightarrow> string \<Rightarrow> string \<Rightarrow> call list" where
  "session_calls sourceRepo destRepo layerDigest dlUrl =
     [GetDownloadUrlForLayer sourceRepo layerDigest, InitiateLayerUpload destRepo, HttpGet dlUrl]"

definition opens ::
  "env \<Rightarrow> string \<Rightarrow> string \<Rightarrow> string \<Rightarrow> call list \<Rightarrow> string \<Rightarrow> upload \<Rightarrow> reader \<Rightarrow> bool"
where
  "opens env sourceRepo destRepo layerDigest log dlUrl up body =
     (getDownloadUrlForLayer env (log @ take 1 (session_calls sourceRepo destRepo layerDigest dlUrl))
        = Inr dlUrl \<and>
      initiateLayerUpload env (log @ take 2 (session_calls sourceRepo destRepo layerDigest dlUrl))
        = Inr up \<and>
      httpGet env (log @ session_calls sourceRepo destRepo layerDigest dlUrl) = Inr body)"

definition commit_call :: "string \<Rightarrow> upload \<Rightarrow> byte list \<Rightarrow> call" where
  "commit_call destRepo up digest =
     CompleteLayerUpload destRepo (UploadId up) [UploadId up @ '':'' @ fmt_064x digest]"

definition commit_result :: "env \<Rightarrow> string \<Rightarrow> call list \<Rightarrow> unit outcome" where
  "commit_result env layerDigest tr =
     (case completeLayerUpload env tr of
        None \<Rightarrow> Done ()
      | Some err \<Rightarrow> Failed (Wrap ''CompleteLayerUpload(%s): %w'' [Str layerDigest] err))"

text \<open>
  The algorithm a content digest \<^verbatim>\<open>algo:hex\<close> declares, and the fields of an upload
  request: its bytes and its byte range read as signed numbers.
\<close>

definition declared_algo :: "string \<Rightarrow> string" where
  "declared_algo digest = fst (Cut digest (CHR '':''))"

definition part_blob :: "call \<Rightarrow> byte list" where
  "part_blob c = (case c of UploadLayerPart p f l r u \<Rightarrow> p | _ \<Rightarrow> [])"

definition first_byte :: "call \<Rightarrow> int" where
  "first_byte c = (case c of UploadLayerPart p f l r u \<Rightarrow> sint f | _ \<Rightarrow> 0)"

definition last_byte :: "call \<Rightarrow> int" where
  "last_byte c = (case c of UploadLayerPart p f l r u \<Rightarrow> sint l | _ \<Rightarrow> 0)"

text \<open>The requests that publish a manifest.\<close>

definition is_PutImage :: "call \<Rightarrow> bool" where
  "is_PutImage c = (case c of PutImage r m t \<Rightarrow> True | _ \<Rightarrow> False)"

section \<open>Sample inputs\<close>

text \<open>
  A small world in which the theorems are instantiated: the image of the specification's
  example scenario (two layers and a config blob), a registry that accepts every request,
  and a stand-in for the hash library that gives 32 bytes and tells the algorithms apart.
\<close>

definition sample_layer :: "string \<Rightarrow> imageLayer" where
  "sample_layer d = \<lparr>MediaType = ''layer'', Size = 5, Digest = d\<rparr>"

definition sample_manifest :: manifest where
  "sample_manifest =
     \<lparr>Config = sample_layer ''sha256:cc'',
      Layers = [sample_layer ''sha256:aa'', sample_layer ''sha256:bb'']\<rparr>"

definition sample_digest :: "string \<Rightarrow> byte list \<Rightarrow> byte list" where
  "sample_digest a bs = (if a = ''sha256'' then 1 else 2) # take 31 (bs @ replicate 31 0)"

definition sample_env :: "layerAvail list \<Rightarrow> upload \<Rightarrow> reader \<Rightarrow> env" where
  "sample_env avails up body =
     \<lparr>batchGetImage = (\<lambda>h. Inr [''{manifest}'']),
      batchCheckLayerAvailability = (\<lambda>h. Inr avails),
      getDownloadUrlForLayer = (\<lambda>h. Inr ''https://blobs/1''),
      initiateLayerUpload = (\<lambda>h. Inr up),
      httpGet = (\<lambda>h. Inr body),
      uploadLayerPart = (\<lambda>h. None),
      completeLayerUpload = (\<lambda>h. None),
      putImage = (\<lambda>h. None),
      json_Unmarshal = (\<lambda>s. if s = ''{manifest}'' then Inr sample_manifest
                             else Inl (ExtErr ''invalid character'')),
      digest_of = sample_digest\<rparr>"

definition sample_upload :: upload where
  "sample_upload = \<lparr>UploadId = ''u1'', PartSize = 2\<rparr>"

definition whole_reader :: "byte list \<Rightarrow> reader" where
  "whole_reader bs = \<lparr>pending = [Data bs], eof_with_data = True\<rparr>"

definition bytewise_reader :: "byte list \<Rightarrow> reader" where
  "bytewise_reader bs = \<lparr>pending = map (\<lambda>x. Data [x]) bs, eof_with_data = False\<rparr>"

text \<open>The same world with a source that refuses the download of one blob.\<close>

definition deny_download :: "string \<Rightarrow> string \<Rightarrow> env \<Rightarrow> env" where
  "deny_download repo digest env =
     env\<lparr>getDownloadUrlForLayer :=
           (\<lambda>h. if last h = GetDownloadUrlForLayer repo digest
                then Inl (ExtErr ''LayerInaccessibleException'')
                else getDownloadUrlForLayer env h)\<rparr>"

section \<open>The transfer loop on a stream that does not fail\<close>

lemma downloadPart_clean:
  assumes "clean body" "length b = ps" "partSize < ps"
  shows "\<exists>body' b'.
           downloadPart dig (int ps) body b partSize =
             Some (Done (body', b', partSize + min (ps - partSize) (length (content body)),
                         partSize + length (content body) < ps)) \<and>
           clean body' \<and> length b' = ps \<and>
           content body' = drop (ps - partSize) (content body) \<and>
           take (partSize + min (ps - partSize) (length (content body))) b' =
             take partSize b @ take (ps - partSize) (content body)"
  using assms
proof (induction "length (pending body) + length (content body)" arbitrary: body b partSize rule: less_induct)
  case less
  show ?case
  proof (cases "pending body")
    case Nil
    then show ?thesis using less.prems
      by (subst downloadPart.simps) (simp add: Read_def content_def errors_Is_EOF_def)
  next
    case (Cons ev es)
    then obtain d where ev: "ev = Data d" using less.prems(1) by (cases ev) (auto simp: clean_def)
    show ?thesis
    proof (cases "length d \<le> ps - partSize")
      case fits: True
      let ?body' = "body\<lparr>pending := es\<rparr>"
      have cl: "clean ?body'" using less.prems(1) Cons by (simp add: clean_def)
      have c: "content body = d @ content ?body'" using Cons ev by (simp add: content_def)
      show ?thesis
      proof (cases "d = []")
        case True
        show ?thesis
        proof (cases "es = [] \<and> eof_with_data body")
          case True
          with \<open>d = []\<close> Cons ev less.prems show ?thesis
            by (subst downloadPart.simps) (simp add: Read_def content_def errors_Is_EOF_def clean_def)
        next
          case False
          have m: "length (pending ?body') + length (content ?body') < length (pending body) + length (content body)"
            using Cons c by simp
          from less.hyps[OF m cl less.prems(2,3)] obtain body'' b'' where
            *: "downloadPart dig (int ps) ?body' b partSize =
             Some (Done (body'', b'', partSize + min (ps - partSize) (length (content ?body')),
                         partSize + length (content ?body') < ps))"
            "clean body''" "length b'' = ps"
            "content body'' = drop (ps - partSize) (content ?body')"
            "take (partSize + min (ps - partSize) (length (content ?body'))) b'' =
             take partSize b @ take (ps - partSize) (content ?body')" by blast
          have "downloadPart dig (int ps) body b partSize = downloadPart dig (int ps) ?body' b partSize"
            using False \<open>d = []\<close> Cons ev less.prems
            by (subst downloadPart.simps) (auto simp add: Read_def errors_Is_EOF_def)
          with * c \<open>d = []\<close> show ?thesis by simp
        qed
      next
        case False
        let ?b' = "take partSize b @ d @ drop (partSize + length d) b"
        have lb: "length ?b' = ps" using less.prems fits by simp
        show ?thesis
        proof (cases "partSize + length d = ps")
          case True
          have "downloadPart dig (int ps) body b partSize = Some (Done (?body', ?b', ps, False))"
            using False True Cons ev less.prems fits
            by (subst downloadPart.simps) (auto simp add: Read_def errors_Is_EOF_def Let_def)
          moreover have "take ps ?b' = take partSize b @ d" using True less.prems by auto
          ultimately show ?thesis using cl lb c True less.prems by auto
        next
          case ne: False
          then have lt: "partSize + length d < ps" using fits less.prems by simp
          have m: "length (pending ?body') + length (content ?body') < length (pending body) + length (content body)"
            using Cons c by simp
          from less.hyps[OF m cl lb lt] obtain body'' b'' where
            *: "downloadPart dig (int ps) ?body' ?b' (partSize + length d) =
             Some (Done (body'', b'', partSize + length d + min (ps - (partSize + length d)) (length (content ?body')),
                         partSize + length d + length (content ?body') < ps))"
            "clean body''" "length b'' = ps"
            "content body'' = drop (ps - (partSize + length d)) (content ?body')"
            "take (partSize + length d + min (ps - (partSize + length d)) (length (content ?body'))) b'' =
             take (partSize + length d) ?b' @ take (ps - (partSize + length d)) (content ?body')" by blast
          have "downloadPart dig (int ps) body b partSize = downloadPart dig (int ps) ?body' ?b' (partSize + length d)"
            using False ne Cons ev less.prems fits
            by (subst downloadPart.simps) (auto simp add: Read_def errors_Is_EOF_def Let_def)
          moreover have "partSize + length d + min (ps - (partSize + length d)) (length (content ?body'))
               = partSize + min (ps - partSize) (length (content body))"
          proof -
            have "length (content body) = length d + length (content ?body')"
              by (subst c) simp
            with lt show ?thesis by arith
          qed
          moreover have "take (partSize + length d) ?b' = take partSize b @ d"
            using less.prems lt by auto
          moreover have "take (ps - partSize) (content body) = d @ take (ps - (partSize + length d)) (content ?body')"
            using c lt by simp
          moreover have "drop (ps - partSize) (content body) = drop (ps - (partSize + length d)) (content ?body')"
            using c lt by simp
          ultimately show ?thesis using * c by (simp add: add.assoc)
        qed
      qed
    next
      case big: False
      let ?cap = "ps - partSize"
      let ?body' = "body\<lparr>pending := Data (drop ?cap d) # es\<rparr>"
      let ?b' = "take partSize b @ take ?cap d @ drop (partSize + length (take ?cap d)) b"
      have c: "content body = d @ concat (map event_data es)" using Cons ev by (simp add: content_def)
      have "downloadPart dig (int ps) body b partSize = Some (Done (?body', ?b', ps, False))"
        using big Cons ev less.prems
        by (subst downloadPart.simps) (auto simp add: Read_def errors_Is_EOF_def Let_def min_def)
      moreover have "clean ?body'" using less.prems(1) Cons ev by (simp add: clean_def)
      moreover have "length ?b' = ps" using less.prems big by simp
      moreover have "content ?body' = drop ?cap (content body)" using c big by (simp add: content_def)
      moreover have "take ps ?b' = take partSize b @ take ?cap (content body)"
        using less.prems big c by auto
      ultimately show ?thesis using big c less.prems by (auto simp: min_def)
    qed
  qed
qed

lemma copyParts_clean:
  assumes "clean body" "length b = nat (PartSize up)" "0 < PartSize up"
    and ok: "\<And>h. uploadLayerPart env h = None"
  shows "copyParts env destRepo dig up body b (word_of_nat off) sha log =
           Some (Done (sha\<lparr>written := written sha @ content body\<rparr>),
                 log @ part_calls destRepo (UploadId up) off
                         (split_parts (nat (PartSize up)) (content body)))"
  using assms(1,2)
proof (induction "length (content body)" arbitrary: body b off sha log rule: less_induct)
  case less
  define ps where "ps = nat (PartSize up)"
  have ps: "0 < ps" "int ps = PartSize up" using assms(3) by (simp_all add: ps_def)
  let ?c = "content body"
  let ?k = "min ps (length ?c)"
  from downloadPart_clean[OF less.prems(1), of b ps 0 dig] less.prems(2) ps
  obtain body' b' where
    dl: "downloadPart dig (PartSize up) body b 0 = Some (Done (body', b', ?k, length ?c < ps))"
    and cl: "clean body'" and lb: "length b' = ps"
    and c': "content body' = drop ps ?c"
    and tk: "take ?k b' = take ps ?c"
    by (auto simp: ps_def)
  show ?case
  proof (cases "?c = []")
    case True
    then show ?thesis using dl ps
      by (subst copyParts.simps) (simp add: split_parts.simps)
  next
    case False
    then have k: "0 < ?k" using ps by simp
    let ?call = "UploadLayerPart (take ps ?c) (word_of_nat off) (word_of_nat off + word_of_nat ?k - 1)
                   destRepo (UploadId up)"
    show ?thesis
    proof (cases "length ?c < ps")
      case True
      then have sp: "split_parts ps ?c = [?c]" using False ps
        by (subst split_parts.simps) (simp add: split_parts.simps)
      have kk: "?k = length ?c" using True by simp
      show ?thesis using dl k True tk False
        by (subst copyParts.simps) (simp add: ok Let_def Write_def sp ps_def[symmetric] kk)
    next
      case full: False
      then have kk: "?k = ps" by simp
      have sp: "split_parts ps ?c = take ps ?c # split_parts ps (drop ps ?c)" using False ps
        by (subst split_parts.simps) simp
      have m: "length (content body') < length ?c" using c' ps False by simp
      have lt: "min (length ?c) ps = ps" using full by simp
      note IH = less.hyps[OF m cl, of b' "off + ps" "Write sha (take ps ?c)" "log @ [?call]"]
      have "copyParts env destRepo dig up body b (word_of_nat off) sha log =
            copyParts env destRepo dig up body' b' (word_of_nat (off + ps)) (Write sha (take ps ?c)) (log @ [?call])"
        using dl k full tk
        by (subst copyParts.simps) (simp add: ok Let_def kk)
      also have "\<dots> = Some (Done ((Write sha (take ps ?c))\<lparr>written := written (Write sha (take ps ?c)) @ content body'\<rparr>),
                 (log @ [?call]) @ part_calls destRepo (UploadId up) (off + ps)
                         (split_parts (nat (PartSize up)) (content body')))"
        using IH lb by (simp add: ps_def)
      finally show ?thesis
        using c' by (simp add: sp ps_def[symmetric] Write_def lt kk)
    qed
  qed
qed

lemma opens_unfold:
  "opens env sourceRepo destRepo layerDigest log dlUrl up body \<longleftrightarrow>
     getDownloadUrlForLayer env (log @ [GetDownloadUrlForLayer sourceRepo layerDigest]) = Inr dlUrl \<and>
     initiateLayerUpload env (log @ [GetDownloadUrlForLayer sourceRepo layerDigest,
                                     InitiateLayerUpload destRepo]) = Inr up \<and>
     httpGet env (log @ [GetDownloadUrlForLayer sourceRepo layerDigest,
                         InitiateLayerUpload destRepo, HttpGet dlUrl]) = Inr body"
  by (simp add: opens_def session_calls_def)

lemma copyLayer_clean:
  assumes o: "opens env sourceRepo destRepo layerDigest log dlUrl up body"
    and ps: "0 < PartSize up" and cl: "clean body"
    and ok: "\<And>h. uploadLayerPart env h = None"
  shows "copyLayer env sourceRepo destRepo layerDigest log =
           Some (commit_result env layerDigest
                   (log @ session_calls sourceRepo destRepo layerDigest dlUrl @
                    part_calls destRepo (UploadId up) 0 (split_parts (nat (PartSize up)) (content body)) @
                    [commit_call destRepo up (digest_of env ''sha256'' (content body))]),
                 log @ session_calls sourceRepo destRepo layerDigest dlUrl @
                 part_calls destRepo (UploadId up) 0 (split_parts (nat (PartSize up)) (content body)) @
                 [commit_call destRepo up (digest_of env ''sha256'' (content body))])"
proof -
  let ?log3 = "log @ [GetDownloadUrlForLayer sourceRepo layerDigest, InitiateLayerUpload destRepo, HttpGet dlUrl]"
  have cp: "copyParts env destRepo layerDigest up body (replicate (nat (PartSize up)) 0) 0 sha256_New ?log3 =
           Some (Done (sha256_New\<lparr>written := written sha256_New @ content body\<rparr>),
                 ?log3 @ part_calls destRepo (UploadId up) 0
                         (split_parts (nat (PartSize up)) (content body)))"
    using copyParts_clean[OF cl _ ps ok, of "replicate (nat (PartSize up)) 0" destRepo layerDigest 0 sha256_New ?log3]
    by simp
  have s: "Sum env (sha256_New\<lparr>written := written sha256_New @ content body\<rparr>) = digest_of env ''sha256'' (content body)"
    by (simp add: Sum_def sha256_New_def)
  from o[unfolded opens_unfold] ps show ?thesis
    by (simp add: copyLayer_def Let_def cp s commit_result_def commit_call_def session_calls_def
             split: option.splits)
qed

lemma written_foldl_Write: "written (foldl Write h ps) = written h @ concat ps"
  by (induction ps arbitrary: h) (simp_all add: Write_def)

lemma algo_foldl_Write: "algo (foldl Write h ps) = algo h"
  by (induction ps arbitrary: h) (simp_all add: Write_def)

lemma concat_split_parts: "0 < n \<Longrightarrow> concat (split_parts n xs) = xs"
proof (induction "length xs" arbitrary: xs rule: less_induct)
  case less
  show ?case
  proof (cases "xs = []")
    case True
    then show ?thesis by (simp add: split_parts.simps)
  next
    case False
    with less.prems have "length (drop n xs) < length xs" by simp
    from less.hyps[OF this less.prems] False less.prems show ?thesis
      by (subst split_parts.simps) simp
  qed
qed

lemma Sum_parts:
  "0 < n \<Longrightarrow> Sum env (foldl Write sha256_New (split_parts n xs)) = digest_of env ''sha256'' xs"
  by (simp add: Sum_def written_foldl_Write algo_foldl_Write concat_split_parts sha256_New_def)

text \<open>
  Claim C1. For every blob and every positive part size, the digest that \<^verbatim>\<open>copyLayer\<close>
  commits, obtained by writing each emitted part in order to the hash accumulator, is the
  digest of the whole blob hashed in one pass; and replacing the stream by any other stream
  that delivers the same bytes cut differently (one byte per read, or everything at once)
  changes neither the parts nor the digest: the whole trace and the result are the same.
\<close>

theorem digest_determinism:
  assumes "opens env sourceRepo destRepo layerDigest log dlUrl up body"
    and "0 < PartSize up" and "clean body" and "clean body'" and "content body' = content body"
    and "\<forall>h. uploadLayerPart env h = None"
  shows "copyLayer (env\<lparr>httpGet := \<lambda>h. Inr body'\<rparr>) sourceRepo destRepo layerDigest log =
           copyLayer env sourceRepo destRepo layerDigest log \<and>
         (\<exists>res parts.
            copyLayer env sourceRepo destRepo layerDigest log =
              Some (res, log @ session_calls sourceRepo destRepo layerDigest dlUrl @
                         part_calls destRepo (UploadId up) 0 parts @
                         [commit_call destRepo up (Sum env (foldl Write sha256_New parts))]) \<and>
            concat parts = content body \<and>
            Sum env (foldl Write sha256_New parts) = digest_of env ''sha256'' (content body))"
proof -
  let ?env' = "env\<lparr>httpGet := \<lambda>h. Inr body'\<rparr>"
  have ok: "\<And>h. uploadLayerPart env h = None" "\<And>h. uploadLayerPart ?env' h = None"
    using assms(6) by simp_all
  have o': "opens ?env' sourceRepo destRepo layerDigest log dlUrl up body'"
    using assms(1) by (simp add: opens_def)
  have n: "0 < nat (PartSize up)" using assms(2) by simp
  note a = copyLayer_clean[OF assms(1,2,3) ok(1)]
  note b = copyLayer_clean[OF o' assms(2,4) ok(2)]
  have "copyLayer ?env' sourceRepo destRepo layerDigest log = copyLayer env sourceRepo destRepo layerDigest log"
    unfolding a b by (simp add: assms(5) commit_result_def)
  moreover have "\<exists>res parts.
            copyLayer env sourceRepo destRepo layerDigest log =
              Some (res, log @ session_calls sourceRepo destRepo layerDigest dlUrl @
                         part_calls destRepo (UploadId up) 0 parts @
                         [commit_call destRepo up (Sum env (foldl Write sha256_New parts))]) \<and>
            concat parts = content body \<and>
            Sum env (foldl Write sha256_New parts) = digest_of env ''sha256'' (content body)"
    unfolding a using Sum_parts[OF n] concat_split_parts[OF n] by auto
  ultimately show ?thesis by blast
qed

theorem digest_determinism_witness:
  "copyLayer ((sample_env [] sample_upload (whole_reader [1, 2, 3, 4, 5]))
                 \<lparr>httpGet := \<lambda>h. Inr (bytewise_reader [1, 2, 3, 4, 5])\<rparr>) ''src'' ''dst'' ''sha256:bb'' [] =
     copyLayer (sample_env [] sample_upload (whole_reader [1, 2, 3, 4, 5])) ''src'' ''dst'' ''sha256:bb'' [] \<and>
   (\<exists>res parts.
      copyLayer (sample_env [] sample_upload (whole_reader [1, 2, 3, 4, 5])) ''src'' ''dst'' ''sha256:bb'' [] =
        Some (res, [] @ session_calls ''src'' ''dst'' ''sha256:bb'' ''https://blobs/1'' @
                   part_calls ''dst'' (UploadId sample_upload) 0 parts @
                   [commit_call ''dst'' sample_upload
                      (Sum (sample_env [] sample_upload (whole_reader [1, 2, 3, 4, 5]))
                         (foldl Write sha256_New parts))]) \<and>
      concat parts = content (whole_reader [1, 2, 3, 4, 5]) \<and>
      Sum (sample_env [] sample_upload (whole_reader [1, 2, 3, 4, 5])) (foldl Write sha256_New parts) =
        digest_of (sample_env [] sample_upload (whole_reader [1, 2, 3, 4, 5])) ''sha256''
          (content (whole_reader [1, 2, 3, 4, 5])))"
proof -
  have h: "opens (sample_env [] sample_upload (whole_reader [1, 2, 3, 4, 5])) ''src'' ''dst'' ''sha256:bb'' []
             ''https://blobs/1'' sample_upload (whole_reader [1, 2, 3, 4, 5])"
    "0 < PartSize sample_upload"
    "clean (whole_reader [1, 2, 3, 4, 5])" "clean (bytewise_reader [1, 2, 3, 4, 5])"
    "content (bytewise_reader [1, 2, 3, 4, 5]) = content (whole_reader [1, 2, 3, 4, 5])"
    "\<forall>h. uploadLayerPart (sample_env [] sample_upload (whole_reader [1, 2, 3, 4, 5])) h = None"
    by (simp_all add: opens_def sample_env_def sample_upload_def clean_def content_def
          whole_reader_def bytewise_reader_def)
  show ?thesis by (rule digest_determinism[OF h])
qed

lemma split_parts_multiple:
  "0 < n \<Longrightarrow> length xs = k * n \<Longrightarrow>
     length (split_parts n xs) = k \<and> (\<forall>p\<in>set (split_parts n xs). length p = n)"
proof (induction k arbitrary: xs)
  case 0
  then show ?case by (simp add: split_parts.simps)
next
  case (Suc k)
  then have "length (drop n xs) = k * n" by simp
  from Suc.IH[OF Suc.prems(1) this] Suc.prems show ?case
    by (subst (1 2) split_parts.simps) auto
qed

lemma length_part_calls: "length (part_calls repo uid off ps) = length ps"
  by (induction ps arbitrary: off) simp_all

text \<open>
  Claim C2. When the length of the blob is a positive multiple of the part size of the
  session, \<^verbatim>\<open>copyLayer\<close> uploads exactly length / part size parts, none of them
  empty: no empty part follows the one that finished the stream.
\<close>

theorem no_spurious_empty_part:
  assumes "opens env sourceRepo destRepo layerDigest log dlUrl up body"
    and "0 < PartSize up" and "clean body" and "\<forall>h. uploadLayerPart env h = None"
    and "length (content body) = k * nat (PartSize up)" and "0 < k"
  shows "\<exists>res parts.
           copyLayer env sourceRepo destRepo layerDigest log =
             Some (res, log @ session_calls sourceRepo destRepo layerDigest dlUrl @
                        part_calls destRepo (UploadId up) 0 parts @
                        [commit_call destRepo up (digest_of env ''sha256'' (content body))]) \<and>
           length (part_calls destRepo (UploadId up) 0 parts) = length (content body) div nat (PartSize up) \<and>
           [] \<notin> set parts"
proof -
  have ok: "\<And>h. uploadLayerPart env h = None" using assms(4) by simp
  have n: "0 < nat (PartSize up)" using assms(2) by simp
  from split_parts_multiple[OF n assms(5)] n assms(5)
  have "length (split_parts (nat (PartSize up)) (content body)) = length (content body) div nat (PartSize up)"
    and "[] \<notin> set (split_parts (nat (PartSize up)) (content body))"
    by auto
  then show ?thesis
    unfolding copyLayer_clean[OF assms(1,2,3) ok] by (auto simp: length_part_calls)
qed

theorem no_spurious_empty_part_witness:
  "\<exists>res parts.
     copyLayer (sample_env [] sample_upload (bytewise_reader [1, 2, 3, 4])) ''src'' ''dst'' ''sha256:bb'' [] =
       Some (res, [] @ session_calls ''src'' ''dst'' ''sha256:bb'' ''https://blobs/1'' @
                  part_calls ''dst'' (UploadId sample_upload) 0 parts @
                  [commit_call ''dst'' sample_upload
                     (digest_of (sample_env [] sample_upload (bytewise_reader [1, 2, 3, 4])) ''sha256''
                        (content (bytewise_reader [1, 2, 3, 4])))]) \<and>
     length (part_calls ''dst'' (UploadId sample_upload) 0 parts) =
       length (content (bytewise_reader [1, 2, 3, 4])) div nat (PartSize sample_upload) \<and>
     [] \<notin> set parts"
proof -
  have h: "opens (sample_env [] sample_upload (bytewise_reader [1, 2, 3, 4])) ''src'' ''dst'' ''sha256:bb'' []
             ''https://blobs/1'' sample_upload (bytewise_reader [1, 2, 3, 4])"
    "0 < PartSize sample_upload"
    "clean (bytewise_reader [1, 2, 3, 4])"
    "\<forall>h. uploadLayerPart (sample_env [] sample_upload (bytewise_reader [1, 2, 3, 4])) h = None"
    "length (content (bytewise_reader [1, 2, 3, 4])) = 2 * nat (PartSize sample_upload)"
    "0 < (2::nat)"
    by (simp_all add: opens_def sample_env_def sample_upload_def clean_def content_def bytewise_reader_def)
  show ?thesis by (rule no_spurious_empty_part[OF h])
qed

text \<open>
  Claim C10. When the first read of the stream returns no bytes and end-of-stream (a blob
  of length zero), \<^verbatim>\<open>copyLayer\<close> makes no part upload at all, commits the session
  with the digest of the empty input, and succeeds when the registry accepts the commit.
\<close>

theorem empty_blob_commits_without_parts:
  assumes "opens env sourceRepo destRepo layerDigest log dlUrl up body"
    and "0 \<le> PartSize up"
    and "Read body (nat (PartSize up)) = (([], Some e), body')" and "is_EOF e"
    and "completeLayerUpload env
           (log @ session_calls sourceRepo destRepo layerDigest dlUrl @
            [commit_call destRepo up (digest_of env ''sha256'' [])]) = None"
  shows "copyLayer env sourceRepo destRepo layerDigest log =
           Some (Done (), log @ session_calls sourceRepo destRepo layerDigest dlUrl @
                          [commit_call destRepo up (digest_of env ''sha256'' [])])"
proof -
  have dl: "downloadPart layerDigest (PartSize up) body (replicate (nat (PartSize up)) 0) 0 =
              Some (Done (body', replicate (nat (PartSize up)) 0, 0, True))"
    using assms(3,4) by (subst downloadPart.simps) (simp add: errors_Is_EOF_def)
  have cp: "copyParts env destRepo layerDigest up body (replicate (nat (PartSize up)) 0) 0 sha256_New lg =
              Some (Done sha256_New, lg)" for lg
    by (subst copyParts.simps) (simp add: dl)
  have s: "Sum env sha256_New = digest_of env ''sha256'' []"
    by (simp add: Sum_def sha256_New_def)
  from assms(1)[unfolded opens_unfold] assms(2,5) show ?thesis
    by (simp add: copyLayer_def Let_def cp s commit_call_def session_calls_def)
qed

theorem empty_blob_commits_without_parts_witness:
  "copyLayer (sample_env [] sample_upload \<lparr>pending = [], eof_with_data = False\<rparr>)
     ''src'' ''dst'' ''sha256:bb'' [] =
     Some (Done (), [] @ session_calls ''src'' ''dst'' ''sha256:bb'' ''https://blobs/1'' @
                    [commit_call ''dst'' sample_upload
                       (digest_of (sample_env [] sample_upload \<lparr>pending = [], eof_with_data = False\<rparr>)
                          ''sha256'' [])])"
proof -
  have h: "opens (sample_env [] sample_upload \<lparr>pending = [], eof_with_data = False\<rparr>) ''src'' ''dst''
             ''sha256:bb'' [] ''https://blobs/1'' sample_upload \<lparr>pending = [], eof_with_data = False\<rparr>"
    "0 \<le> PartSize sample_upload"
    "Read \<lparr>pending = [], eof_with_data = False\<rparr> (nat (PartSize sample_upload)) =
       (([], Some EOF), \<lparr>pending = [], eof_with_data = False\<rparr>)"
    "is_EOF EOF"
    "completeLayerUpload (sample_env [] sample_upload \<lparr>pending = [], eof_with_data = False\<rparr>)
       ([] @ session_calls ''src'' ''dst'' ''sha256:bb'' ''https://blobs/1'' @
        [commit_call ''dst'' sample_upload
           (digest_of (sample_env [] sample_upload \<lparr>pending = [], eof_with_data = False\<rparr>) ''sha256'' [])])
       = None"
    by (simp_all add: opens_def sample_env_def Read_def sample_upload_def)
  show ?thesis by (rule empty_blob_commits_without_parts[OF h])
qed

lemma sint_word_of_nat_64: "n < 2 ^ 63 \<Longrightarrow> sint (word_of_nat n :: int64) = int n"
proof -
  assume "n < 2 ^ 63"
  then have "int n < 2 ^ 63" by (metis of_nat_less_iff of_nat_numeral of_nat_power)
  then show ?thesis
    by (simp add: signed_of_nat signed_take_bit_int_eq_self)
qed

lemma last_word: "0 < b \<Longrightarrow> (word_of_nat a :: int64) + word_of_nat b - 1 = word_of_nat (a + b - 1)"
  by (cases b) simp_all

lemma part_calls_nth:
  "i < length ps \<Longrightarrow>
     part_calls repo uid off ps ! i =
       UploadLayerPart (ps ! i) (word_of_nat (off + length (concat (take i ps))))
         (word_of_nat (off + length (concat (take i ps))) + word_of_nat (length (ps ! i)) - 1) repo uid"
proof (induction ps arbitrary: off i)
  case Nil
  then show ?case by simp
next
  case (Cons p ps)
  show ?case
  proof (cases i)
    case 0
    then show ?thesis by simp
  next
    case (Suc j)
    with Cons.prems have "j < length ps" by simp
    from Cons.IH[OF this, of "off + length p"] Suc show ?thesis by (simp add: add.assoc)
  qed
qed

lemma concat_take_nth_le:
  "i < length ps \<Longrightarrow> length (concat (take i ps)) + length (ps ! i) \<le> length (concat ps)"
proof -
  assume i: "i < length ps"
  have "concat ps = concat (take (Suc i) ps) @ concat (drop (Suc i) ps)"
    by (metis append_take_drop_id concat_append)
  moreover have "concat (take (Suc i) ps) = concat (take i ps) @ ps ! i"
    using i by (simp add: take_Suc_conv_app_nth)
  ultimately show ?thesis by simp
qed

lemma split_parts_nonempty: "[] \<notin> set (split_parts n xs)"
proof (induction "length xs" arbitrary: xs rule: less_induct)
  case less
  show ?case
  proof (cases "n = 0 \<or> xs = []")
    case True
    then show ?thesis by (simp add: split_parts.simps)
  next
    case False
    then have "length (drop n xs) < length xs" by simp
    from less.hyps[OF this] False show ?thesis
      by (subst split_parts.simps) auto
  qed
qed

lemma split_parts_full:
  "Suc i < length (split_parts n xs) \<Longrightarrow> length (split_parts n xs ! i) = n"
proof (induction i arbitrary: xs)
  case 0
  have ne: "\<not> (n = 0 \<or> xs = [])" using 0 by (auto simp: split_parts.simps split: if_splits)
  then have sp: "split_parts n xs = take n xs # split_parts n (drop n xs)"
    by (subst split_parts.simps) simp
  with 0 have "split_parts n (drop n xs) \<noteq> []" by auto
  then have "drop n xs \<noteq> []" by (auto simp: split_parts.simps split: if_splits)
  then show ?case using sp by simp
next
  case (Suc i)
  have ne: "\<not> (n = 0 \<or> xs = [])" using Suc.prems by (auto simp: split_parts.simps split: if_splits)
  then have sp: "split_parts n xs = take n xs # split_parts n (drop n xs)"
    by (subst split_parts.simps) simp
  with Suc.prems have "Suc i < length (split_parts n (drop n xs))" by simp
  from Suc.IH[OF this] sp show ?case by simp
qed

text \<open>
  Claim C3. In a transfer of a blob shorter than \<open>2 ^ 63\<close> bytes, every part but the last
  has exactly the part size of the session; part \<open>i\<close> is uploaded with the range that
  starts at the running offset (0 for the first part, then the sum of the lengths of the
  parts before it) and ends at that offset plus its length minus one; each range starts
  right after the one before it; and the bytes written to the hash accumulator are the
  bytes uploaded.
\<close>

theorem parts_cover_contiguous_ranges:
  assumes "opens env sourceRepo destRepo layerDigest log dlUrl up body"
    and "0 < PartSize up" and "clean body" and "\<forall>h. uploadLayerPart env h = None"
    and "length (content body) < 2 ^ 63"
  shows "\<exists>res parts.
           copyLayer env sourceRepo destRepo layerDigest log =
             Some (res, log @ session_calls sourceRepo destRepo layerDigest dlUrl @
                        part_calls destRepo (UploadId up) 0 parts @
                        [commit_call destRepo up (Sum env (foldl Write sha256_New parts))]) \<and>
           concat parts = content body \<and>
           (\<forall>i<length parts.
              part_blob (part_calls destRepo (UploadId up) 0 parts ! i) = parts ! i \<and>
              first_byte (part_calls destRepo (UploadId up) 0 parts ! i) =
                int (length (concat (take i parts))) \<and>
              last_byte (part_calls destRepo (UploadId up) 0 parts ! i) =
                first_byte (part_calls destRepo (UploadId up) 0 parts ! i) + int (length (parts ! i)) - 1 \<and>
              first_byte (part_calls destRepo (UploadId up) 0 parts ! i) \<le>
                last_byte (part_calls destRepo (UploadId up) 0 parts ! i) \<and>
              (i + 1 < length parts \<longrightarrow>
                 length (parts ! i) = nat (PartSize up) \<and>
                 first_byte (part_calls destRepo (UploadId up) 0 parts ! (i + 1)) =
                   last_byte (part_calls destRepo (UploadId up) 0 parts ! i) + 1))"
proof -
  have ok: "\<And>h. uploadLayerPart env h = None" using assms(4) by simp
  have n: "0 < nat (PartSize up)" using assms(2) by simp
  define parts where "parts = split_parts (nat (PartSize up)) (content body)"
  have cc: "concat parts = content body" unfolding parts_def by (rule concat_split_parts[OF n])
  let ?us = "part_calls destRepo (UploadId up) 0 parts"
  have run: "copyLayer env sourceRepo destRepo layerDigest log =
             Some (commit_result env layerDigest
                     (log @ session_calls sourceRepo destRepo layerDigest dlUrl @ ?us @
                      [commit_call destRepo up (Sum env (foldl Write sha256_New parts))]),
                   log @ session_calls sourceRepo destRepo layerDigest dlUrl @ ?us @
                        [commit_call destRepo up (Sum env (foldl Write sha256_New parts))])"
    unfolding copyLayer_clean[OF assms(1,2,3) ok] parts_def Sum_parts[OF n] ..
  have each: "part_blob (?us ! i) = parts ! i \<and>
              first_byte (?us ! i) = int (length (concat (take i parts))) \<and>
              last_byte (?us ! i) = first_byte (?us ! i) + int (length (parts ! i)) - 1 \<and>
              first_byte (?us ! i) \<le> last_byte (?us ! i) \<and>
              (i + 1 < length parts \<longrightarrow>
                 length (parts ! i) = nat (PartSize up) \<and>
                 first_byte (?us ! (i + 1)) = last_byte (?us ! i) + 1)"
    if i: "i < length parts" for i
  proof -
    let ?a = "length (concat (take i parts))"
    let ?b = "length (parts ! i)"
    have b: "0 < ?b" using split_parts_nonempty[of "nat (PartSize up)" "content body"] i
      unfolding parts_def by (metis length_greater_0_conv nth_mem)
    have le: "?a + ?b \<le> length (content body)"
      using concat_take_nth_le[OF i] cc by simp
    then have bound: "?a < 2 ^ 63" "?a + ?b - 1 < 2 ^ 63" using assms(5) by simp_all
    have nth: "?us ! i = UploadLayerPart (parts ! i) (word_of_nat ?a) (word_of_nat (?a + ?b - 1))
                 destRepo (UploadId up)"
      using part_calls_nth[OF i, of destRepo "UploadId up" 0] last_word[OF b, of ?a] by simp
    have f: "first_byte (?us ! i) = int ?a"
      by (simp add: nth first_byte_def sint_word_of_nat_64[OF bound(1)])
    have "int (?a + ?b - 1) = int ?a + int ?b - 1" using b by linarith
    then have l: "last_byte (?us ! i) = int ?a + int ?b - 1"
      unfolding nth last_byte_def call.case sint_word_of_nat_64[OF bound(2)] .
    have nxt: "length (parts ! i) = nat (PartSize up) \<and> first_byte (?us ! (i + 1)) = last_byte (?us ! i) + 1"
      if s: "i + 1 < length parts"
    proof -
      have full: "length (parts ! i) = nat (PartSize up)"
        using split_parts_full[of i "nat (PartSize up)" "content body"] s by (simp add: parts_def)
      have tk: "concat (take (i + 1) parts) = concat (take i parts) @ parts ! i"
        using i by (simp add: take_Suc_conv_app_nth)
      have "length (concat (take (i + 1) parts)) + length (parts ! (i + 1)) \<le> length (content body)"
        using concat_take_nth_le[OF s] cc by simp
      then have "length (concat (take (i + 1) parts)) < 2 ^ 63" using assms(5) by simp
      then have "first_byte (?us ! (i + 1)) = int (length (concat (take (i + 1) parts)))"
        using part_calls_nth[OF s, of destRepo "UploadId up" 0]
        by (simp add: first_byte_def sint_word_of_nat_64)
      with l tk full show ?thesis by simp
    qed
    have pb: "part_blob (?us ! i) = parts ! i" by (simp add: nth part_blob_def)
    have "first_byte (?us ! i) \<le> last_byte (?us ! i)" using f l b by simp
    with pb f l nxt show ?thesis by simp
  qed
  show ?thesis using run cc each by blast
qed

theorem parts_cover_contiguous_ranges_witness:
  "\<exists>res parts.
     copyLayer (sample_env [] sample_upload (bytewise_reader [1, 2, 3, 4, 5])) ''src'' ''dst'' ''sha256:bb'' [] =
       Some (res, [] @ session_calls ''src'' ''dst'' ''sha256:bb'' ''https://blobs/1'' @
                  part_calls ''dst'' (UploadId sample_upload) 0 parts @
                  [commit_call ''dst'' sample_upload
                     (Sum (sample_env [] sample_upload (bytewise_reader [1, 2, 3, 4, 5]))
                        (foldl Write sha256_New parts))]) \<and>
     concat parts = content (bytewise_reader [1, 2, 3, 4, 5]) \<and>
     (\<forall>i<length parts.
        part_blob (part_calls ''dst'' (UploadId sample_upload) 0 parts ! i) = parts ! i \<and>
        first_byte (part_calls ''dst'' (UploadId sample_upload) 0 parts ! i) =
          int (length (concat (take i parts))) \<and>
        last_byte (part_calls ''dst'' (UploadId sample_upload) 0 parts ! i) =
          first_byte (part_calls ''dst'' (UploadId sample_upload) 0 parts ! i) + int (length (parts ! i)) - 1 \<and>
        first_byte (part_calls ''dst'' (UploadId sample_upload) 0 parts ! i) \<le>
          last_byte (part_calls ''dst'' (UploadId sample_upload) 0 parts ! i) \<and>
        (i + 1 < length parts \<longrightarrow>
           length (parts ! i) = nat (PartSize sample_upload) \<and>
           first_byte (part_calls ''dst'' (UploadId sample_upload) 0 parts ! (i + 1)) =
             last_byte (part_calls ''dst'' (UploadId sample_upload) 0 parts ! i) + 1))"
proof -
  have h: "opens (sample_env [] sample_upload (bytewise_reader [1, 2, 3, 4, 5])) ''src'' ''dst'' ''sha256:bb'' []
             ''https://blobs/1'' sample_upload (bytewise_reader [1, 2, 3, 4, 5])"
    "0 < PartSize sample_upload"
    "clean (bytewise_reader [1, 2, 3, 4, 5])"
    "\<forall>h. uploadLayerPart (sample_env [] sample_upload (bytewise_reader [1, 2, 3, 4, 5])) h = None"
    "length (content (bytewise_reader [1, 2, 3, 4, 5])) < 2 ^ 63"
    by (simp_all add: opens_def sample_env_def sample_upload_def clean_def content_def bytewise_reader_def)
  show ?thesis by (rule parts_cover_contiguous_ranges[OF h])
qed

lemma length_hex_bytes: "length (hex_bytes bs) = 2 * length bs"
  by (induction bs) (simp_all add: hex_bytes_def)

lemma fmt_064x_32: "length bs = 32 \<Longrightarrow> fmt_064x bs = hex_bytes bs"
  by (simp add: fmt_064x_def length_hex_bytes)

lemma hexdigit_lower: "hexdigit n \<in> set ''0123456789abcdef''"
  unfolding hexdigit_def by (rule nth_mem) simp

lemma hex_bytes_lower: "set (hex_bytes bs) \<subseteq> set ''0123456789abcdef''"
  unfolding hex_bytes_def using hexdigit_lower by (induction bs) auto

lemma fmt_064x_lower: "set (fmt_064x bs) \<subseteq> set ''0123456789abcdef''"
  using hex_bytes_lower[of bs] by (auto simp: fmt_064x_def)

text \<open>
  Claim C4, as stated, fails: the accumulator is always the SHA-256 one, whatever
  algorithm the digest of the blob declares. For a blob whose digest declares
  \<^verbatim>\<open>sha512\<close> the committed token carries the SHA-256 digest.
\<close>

theorem commit_token_ignores_declared_algorithm:
  "(\<exists>tr. copyLayer (sample_env [] sample_upload (whole_reader [1, 2, 3])) ''src'' ''dst'' ''sha512:00'' [] =
           Some (Done (), tr @ [commit_call ''dst'' sample_upload
                                  (digest_of (sample_env [] sample_upload (whole_reader [1, 2, 3]))
                                     ''sha256'' [1, 2, 3])])) \<and>
   declared_algo ''sha512:00'' = ''sha512'' \<and>
   algo sha256_New \<noteq> declared_algo ''sha512:00'' \<and>
   digest_of (sample_env [] sample_upload (whole_reader [1, 2, 3])) ''sha256'' [1, 2, 3] \<noteq>
     digest_of (sample_env [] sample_upload (whole_reader [1, 2, 3])) (declared_algo ''sha512:00'') [1, 2, 3]"
proof -
  let ?E = "sample_env [] sample_upload (whole_reader [1, 2, 3])"
  have h: "opens ?E ''src'' ''dst'' ''sha512:00'' [] ''https://blobs/1'' sample_upload (whole_reader [1, 2, 3])"
    "0 < PartSize sample_upload" "clean (whole_reader [1, 2, 3])"
    by (simp_all add: opens_def sample_env_def sample_upload_def clean_def whole_reader_def)
  have ok: "\<And>h. uploadLayerPart ?E h = None" by (simp add: sample_env_def)
  have c: "content (whole_reader [1, 2, 3]) = [1, 2, 3]" by (simp add: content_def whole_reader_def)
  have r: "commit_result ?E d t = Done ()" for d t by (simp add: commit_result_def sample_env_def)
  have "\<exists>tr. copyLayer ?E ''src'' ''dst'' ''sha512:00'' [] =
           Some (Done (), tr @ [commit_call ''dst'' sample_upload (digest_of ?E ''sha256'' [1, 2, 3])])"
    unfolding copyLayer_clean[OF h ok] c r
    by (metis append.assoc)
  moreover have "declared_algo ''sha512:00'' = ''sha512''" by (simp add: declared_algo_def Cut_def)
  moreover have "algo sha256_New \<noteq> declared_algo ''sha512:00''"
    by (simp add: declared_algo_def Cut_def sha256_New_def)
  moreover have "digest_of ?E ''sha256'' [1, 2, 3] \<noteq> digest_of ?E (declared_algo ''sha512:00'') [1, 2, 3]"
    by (simp add: declared_algo_def Cut_def sample_env_def sample_digest_def)
  ultimately show ?thesis by blast
qed

text \<open>
  Claim C4, amended. For every transfer that reaches the end of its stream, and whatever
  algorithm the digest of the blob declares, the token passed to the commit request is the
  upload id, a colon, and the 64 hexadecimal digits of the digest finalized from the local
  SHA-256 accumulator, to which exactly the bytes of the blob were written.
\<close>

theorem commit_token_local_sha256:
  assumes "opens env sourceRepo destRepo layerDigest log dlUrl up body"
    and "0 < PartSize up" and "clean body" and "\<forall>h. uploadLayerPart env h = None"
    and "length (digest_of env ''sha256'' (content body)) = 32"
  shows "\<exists>res parts.
           copyLayer env sourceRepo destRepo layerDigest log =
             Some (res, log @ session_calls sourceRepo destRepo layerDigest dlUrl @
                        part_calls destRepo (UploadId up) 0 parts @
                        [CompleteLayerUpload destRepo (UploadId up)
                           [UploadId up @ '':'' @ hex_bytes (Sum env (foldl Write sha256_New parts))]]) \<and>
           algo (foldl Write sha256_New parts) = ''sha256'' \<and>
           written (foldl Write sha256_New parts) = content body \<and>
           length (hex_bytes (Sum env (foldl Write sha256_New parts))) = 64"
proof -
  have ok: "\<And>h. uploadLayerPart env h = None" using assms(4) by simp
  have n: "0 < nat (PartSize up)" using assms(2) by simp
  define parts where "parts = split_parts (nat (PartSize up)) (content body)"
  have s: "Sum env (foldl Write sha256_New parts) = digest_of env ''sha256'' (content body)"
    unfolding parts_def by (rule Sum_parts[OF n])
  have "copyLayer env sourceRepo destRepo layerDigest log =
          Some (commit_result env layerDigest
                 (log @ session_calls sourceRepo destRepo layerDigest dlUrl @
                  part_calls destRepo (UploadId up) 0 parts @
                  [CompleteLayerUpload destRepo (UploadId up)
                     [UploadId up @ '':'' @ hex_bytes (Sum env (foldl Write sha256_New parts))]]),
                log @ session_calls sourceRepo destRepo layerDigest dlUrl @
                part_calls destRepo (UploadId up) 0 parts @
                [CompleteLayerUpload destRepo (UploadId up)
                   [UploadId up @ '':'' @ hex_bytes (Sum env (foldl Write sha256_New parts))]])"
    unfolding copyLayer_clean[OF assms(1,2,3) ok] parts_def[symmetric] s commit_call_def
      fmt_064x_32[OF assms(5)] ..
  moreover have "algo (foldl Write sha256_New parts) = ''sha256''"
    by (simp add: algo_foldl_Write sha256_New_def)
  moreover have "written (foldl Write sha256_New parts) = content body"
    by (simp add: written_foldl_Write sha256_New_def parts_def concat_split_parts[OF n])
  moreover have "length (hex_bytes (Sum env (foldl Write sha256_New parts))) = 64"
    by (simp add: s length_hex_bytes assms(5))
  ultimately show ?thesis by blast
qed

theorem commit_token_local_sha256_witness:
  "\<exists>res parts.
     copyLayer (sample_env [] sample_upload (whole_reader [1, 2, 3])) ''src'' ''dst'' ''sha512:00'' [] =
       Some (res, [] @ session_calls ''src'' ''dst'' ''sha512:00'' ''https://blobs/1'' @
                  part_calls ''dst'' (UploadId sample_upload) 0 parts @
                  [CompleteLayerUpload ''dst'' (UploadId sample_upload)
                     [UploadId sample_upload @ '':'' @
                      hex_bytes (Sum (sample_env [] sample_upload (whole_reader [1, 2, 3]))
                                   (foldl Write sha256_New parts))]]) \<and>
     algo (foldl Write sha256_New parts) = ''sha256'' \<and>
     written (foldl Write sha256_New parts) = content (whole_reader [1, 2, 3]) \<and>
     length (hex_bytes (Sum (sample_env [] sample_upload (whole_reader [1, 2, 3]))
                          (foldl Write sha256_New parts))) = 64"
proof -
  have h: "opens (sample_env [] sample_upload (whole_reader [1, 2, 3])) ''src'' ''dst'' ''sha512:00'' []
             ''https://blobs/1'' sample_upload (whole_reader [1, 2, 3])"
    "0 < PartSize sample_upload"
    "clean (whole_reader [1, 2, 3])"
    "\<forall>h. uploadLayerPart (sample_env [] sample_upload (whole_reader [1, 2, 3])) h = None"
    "length (digest_of (sample_env [] sample_upload (whole_reader [1, 2, 3])) ''sha256''
               (content (whole_reader [1, 2, 3]))) = 32"
    by (simp_all add: opens_def sample_env_def sample_upload_def clean_def content_def whole_reader_def
          sample_digest_def)
  show ?thesis by (rule commit_token_local_sha256[OF h])
qed

section \<open>The availability checker\<close>

lemma markAvailable_lookup:
  "lookup_bool (markAvailable avails m) k =
     (lookup_bool m k \<or> (\<exists>la\<in>set avails. LayerAvailability la = ''AVAILABLE'' \<and> LayerDigest la = k))"
  by (induction avails arbitrary: m) (auto simp: lookup_bool_def)

lemma collectUnavail_filter:
  "collectUnavail ls m acc = acc @ filter (\<lambda>l. \<not> lookup_bool m (Digest l)) ls"
  by (induction ls arbitrary: acc) auto

lemma lookup_bool_empty: "lookup_bool Map.empty k = False"
  by (simp add: lookup_bool_def)

lemma checkLayerAvails_Done:
  assumes "batchCheckLayerAvailability env (log @ [BatchCheckLayerAvailability destRepo (map Digest layers)]) = Inr avails"
  shows "checkLayerAvails env destRepo layers log =
           (Done (filter (\<lambda>l. \<not> (\<exists>la\<in>set avails. LayerAvailability la = ''AVAILABLE'' \<and>
                                       LayerDigest la = Digest l)) layers),
            log @ [BatchCheckLayerAvailability destRepo (map Digest layers)])"
  using assms
  by (simp add: checkLayerAvails_def collectUnavail_filter markAvailable_lookup lookup_bool_empty)

text \<open>
  Claim C6. Whatever the blob list and whatever the answer of the registry to the
  availability query, \<^verbatim>\<open>checkLayerAvails\<close> returns exactly the blobs of the input
  whose digest the answer does not report with the status \<^verbatim>\<open>AVAILABLE\<close> (another
  status, or no entry at all, counts as not available), in the order of the input.
\<close>

theorem checkLayerAvails_returns_unavailable:
  assumes "batchCheckLayerAvailability env
             (log @ [BatchCheckLayerAvailability destRepo (map Digest layers)]) = Inr avails"
  shows "fst (checkLayerAvails env destRepo layers log) =
           Done (filter (\<lambda>l. \<not> (\<exists>la\<in>set avails. LayerAvailability la = ''AVAILABLE'' \<and>
                                      LayerDigest la = Digest l)) layers)"
  using checkLayerAvails_Done[OF assms] by simp

theorem checkLayerAvails_returns_unavailable_witness:
  "fst (checkLayerAvails
          (sample_env [\<lparr>LayerAvailability = ''AVAILABLE'', LayerDigest = ''sha256:aa''\<rparr>,
                       \<lparr>LayerAvailability = ''UNAVAILABLE'', LayerDigest = ''sha256:bb''\<rparr>]
             \<lparr>UploadId = ''u1'', PartSize = 2\<rparr> \<lparr>pending = [], eof_with_data = False\<rparr>)
          ''dst'' [sample_layer ''sha256:aa'', sample_layer ''sha256:bb'', sample_layer ''sha256:cc''] [])
     = Done [sample_layer ''sha256:bb'', sample_layer ''sha256:cc'']"
  using checkLayerAvails_returns_unavailable
    [of "sample_env [\<lparr>LayerAvailability = ''AVAILABLE'', LayerDigest = ''sha256:aa''\<rparr>,
                       \<lparr>LayerAvailability = ''UNAVAILABLE'', LayerDigest = ''sha256:bb''\<rparr>]
             \<lparr>UploadId = ''u1'', PartSize = 2\<rparr> \<lparr>pending = [], eof_with_data = False\<rparr>"
        "[]" "''dst''" "[sample_layer ''sha256:aa'', sample_layer ''sha256:bb'', sample_layer ''sha256:cc'']"
        "[\<lparr>LayerAvailability = ''AVAILABLE'', LayerDigest = ''sha256:aa''\<rparr>,
                       \<lparr>LayerAvailability = ''UNAVAILABLE'', LayerDigest = ''sha256:bb''\<rparr>]"]
  by (simp add: sample_env_def sample_layer_def)

text \<open>
  Claim C7, as stated, fails: no digest is case-normalised anywhere. A manifest digest
  with upper-case hexadecimal digits is not matched by an \<^verbatim>\<open>AVAILABLE\<close> entry that
  spells the same digest in lower case, and the blob stays in the transfer plan.
\<close>

theorem uppercase_digest_not_recognised:
  "fst (checkLayerAvails
          (sample_env [\<lparr>LayerAvailability = ''AVAILABLE'', LayerDigest = ''sha256:ab''\<rparr>]
             sample_upload (whole_reader []))
          ''dst'' [sample_layer ''sha256:AB''] [])
     = Done [sample_layer ''sha256:AB'']"
  by (simp add: checkLayerAvails_def sample_env_def sample_layer_def lookup_bool_def)

text \<open>
  Claim C7, amended. Digests are compared as they are written: a blob is left out of the
  transfer plan exactly when an \<^verbatim>\<open>AVAILABLE\<close> entry carries the very same digest string
  (digests that differ only in the case of a letter are different); and whatever the
  spelling of the digest of the blob being transferred, the digest in the token of the
  \<^verbatim>\<open>CompleteLayerUpload\<close> request of \<^verbatim>\<open>copyLayer\<close> is the one formatted from the
  local accumulator, all of whose characters are lower-case hexadecimal digits.
\<close>

theorem digests_compared_verbatim:
  assumes "batchCheckLayerAvailability env
             (log @ [BatchCheckLayerAvailability destRepo (map Digest layers)]) = Inr avails"
    and "checkLayerAvails env destRepo layers log = (Done needed, log')"
    and "opens env sourceRepo destRepo layerDigest lg dlUrl up body"
    and "0 < PartSize up" and "clean body" and "\<forall>h. uploadLayerPart env h = None"
  shows "set needed =
           {l \<in> set layers.
              Digest l \<notin> LayerDigest ` {la \<in> set avails. LayerAvailability la = ''AVAILABLE''}} \<and>
         (\<exists>res parts named.
            copyLayer env sourceRepo destRepo layerDigest lg =
              Some (res, lg @ session_calls sourceRepo destRepo layerDigest dlUrl @
                         part_calls destRepo (UploadId up) 0 parts @
                         [CompleteLayerUpload destRepo (UploadId up) [UploadId up @ '':'' @ named]]) \<and>
            named = fmt_064x (Sum env (foldl Write sha256_New parts)) \<and>
            concat parts = content body \<and>
            set named \<subseteq> set ''0123456789abcdef'')"
proof -
  have "needed = filter (\<lambda>l. \<not> (\<exists>la\<in>set avails. LayerAvailability la = ''AVAILABLE'' \<and>
                                       LayerDigest la = Digest l)) layers"
    using checkLayerAvails_Done[OF assms(1)] assms(2) by simp
  then have plan: "set needed =
           {l \<in> set layers.
              Digest l \<notin> LayerDigest ` {la \<in> set avails. LayerAvailability la = ''AVAILABLE''}}"
    by (auto simp: image_iff)
  have ok: "\<And>h. uploadLayerPart env h = None" using assms(6) by simp
  have n: "0 < nat (PartSize up)" using assms(4) by simp
  define parts where "parts = split_parts (nat (PartSize up)) (content body)"
  define named where "named = fmt_064x (Sum env (foldl Write sha256_New parts))"
  have s: "digest_of env ''sha256'' (content body) = Sum env (foldl Write sha256_New parts)"
    unfolding parts_def by (rule Sum_parts[OF n, symmetric])
  have run: "copyLayer env sourceRepo destRepo layerDigest lg =
          Some (commit_result env layerDigest
                 (lg @ session_calls sourceRepo destRepo layerDigest dlUrl @
                  part_calls destRepo (UploadId up) 0 parts @
                  [CompleteLayerUpload destRepo (UploadId up) [UploadId up @ '':'' @ named]]),
                lg @ session_calls sourceRepo destRepo layerDigest dlUrl @
                part_calls destRepo (UploadId up) 0 parts @
                [CompleteLayerUpload destRepo (UploadId up) [UploadId up @ '':'' @ named]])"
    unfolding copyLayer_clean[OF assms(3,4,5) ok] parts_def[symmetric] s commit_call_def named_def ..
  have cc: "concat parts = content body" unfolding parts_def by (rule concat_split_parts[OF n])
  have low: "set named \<subseteq> set ''0123456789abcdef''" unfolding named_def by (rule fmt_064x_lower)
  from run cc low named_def
  have "\<exists>res parts named.
            copyLayer env sourceRepo destRepo layerDigest lg =
              Some (res, lg @ session_calls sourceRepo destRepo layerDigest dlUrl @
                         part_calls destRepo (UploadId up) 0 parts @
                         [CompleteLayerUpload destRepo (UploadId up) [UploadId up @ '':'' @ named]]) \<and>
            named = fmt_064x (Sum env (foldl Write sha256_New parts)) \<and>
            concat parts = content body \<and>
            set named \<subseteq> set ''0123456789abcdef''"
    by blast
  with plan show ?thesis by blast
qed

theorem digests_compared_verbatim_witness:
  "set [sample_layer ''sha256:AB''] =
     {l \<in> set [sample_layer ''sha256:AB'', sample_layer ''sha256:cd''].
        Digest l \<notin> LayerDigest ` {la \<in> set [\<lparr>LayerAvailability = ''AVAILABLE'', LayerDigest = ''sha256:ab''\<rparr>,
                                              \<lparr>LayerAvailability = ''AVAILABLE'', LayerDigest = ''sha256:cd''\<rparr>].
                                    LayerAvailability la = ''AVAILABLE''}} \<and>
   (\<exists>res parts named.
      copyLayer (sample_env [\<lparr>LayerAvailability = ''AVAILABLE'', LayerDigest = ''sha256:ab''\<rparr>,
                             \<lparr>LayerAvailability = ''AVAILABLE'', LayerDigest = ''sha256:cd''\<rparr>]
                   sample_upload (whole_reader [171, 205, 239]))
        ''src'' ''dst'' ''sha256:AB''
        [BatchCheckLayerAvailability ''dst'' [''sha256:AB'', ''sha256:cd'']] =
        Some (res, [BatchCheckLayerAvailability ''dst'' [''sha256:AB'', ''sha256:cd'']] @
                   session_calls ''src'' ''dst'' ''sha256:AB'' ''https://blobs/1'' @
                   part_calls ''dst'' (UploadId sample_upload) 0 parts @
                   [CompleteLayerUpload ''dst'' (UploadId sample_upload)
                      [UploadId sample_upload @ '':'' @ named]]) \<and>
      named = fmt_064x (Sum (sample_env [\<lparr>LayerAvailability = ''AVAILABLE'', LayerDigest = ''sha256:ab''\<rparr>,
                                         \<lparr>LayerAvailability = ''AVAILABLE'', LayerDigest = ''sha256:cd''\<rparr>]
                               sample_upload (whole_reader [171, 205, 239]))
                          (foldl Write sha256_New parts)) \<and>
      concat parts = content (whole_reader [171, 205, 239]) \<and>
      set named \<subseteq> set ''0123456789abcdef'')"
proof -
  let ?avails = "[\<lparr>LayerAvailability = ''AVAILABLE'', LayerDigest = ''sha256:ab''\<rparr>,
                  \<lparr>LayerAvailability = ''AVAILABLE'', LayerDigest = ''sha256:cd''\<rparr>]"
  let ?E = "sample_env ?avails sample_upload (whole_reader [171, 205, 239])"
  let ?layers = "[sample_layer ''sha256:AB'', sample_layer ''sha256:cd'']"
  let ?lg = "[BatchCheckLayerAvailability ''dst'' [''sha256:AB'', ''sha256:cd'']]"
  have a: "batchCheckLayerAvailability ?E ([] @ [BatchCheckLayerAvailability ''dst'' (map Digest ?layers)])
             = Inr ?avails"
    by (simp add: sample_env_def)
  have b: "checkLayerAvails ?E ''dst'' ?layers [] = (Done [sample_layer ''sha256:AB''], ?lg)"
    by (simp add: checkLayerAvails_def sample_env_def sample_layer_def lookup_bool_def)
  have c: "opens ?E ''src'' ''dst'' ''sha256:AB'' ?lg ''https://blobs/1'' sample_upload
             (whole_reader [171, 205, 239])"
    "0 < PartSize sample_upload" "clean (whole_reader [171, 205, 239])"
    "\<forall>h. uploadLayerPart ?E h = None"
    by (simp_all add: opens_def sample_env_def sample_upload_def clean_def whole_reader_def)
  show ?thesis by (rule digests_compared_verbatim[OF a b c])
qed

section \<open>The manifest resolver\<close>

text \<open>
  Claim C8. Whenever \<^verbatim>\<open>getManifest\<close> returns a manifest, the blob list it returns
  is the layers of the parsed manifest in their order, followed by the config blob as
  the last element.
\<close>

theorem getManifest_layers_then_config:
  assumes "getManifest env sourceRepo imageDigestOrTag log = (Done (raw, blobs), log')"
  shows "\<exists>m. json_Unmarshal env raw = Inr m \<and> blobs = Layers m @ [Config m]"
  using assms
  by (auto simp: getManifest_def Let_def split: sum.splits if_splits prod.splits)

theorem getManifest_layers_then_config_witness:
  "getManifest (sample_env [] \<lparr>UploadId = ''u1'', PartSize = 2\<rparr> \<lparr>pending = [], eof_with_data = False\<rparr>)
     ''src'' ''latest'' [] =
     (Done (''{manifest}'', [sample_layer ''sha256:aa'', sample_layer ''sha256:bb'', sample_layer ''sha256:cc'']),
      [BatchGetImage ''src'' (ImageTag ''latest'')]) \<and>
   (\<exists>m. json_Unmarshal (sample_env [] \<lparr>UploadId = ''u1'', PartSize = 2\<rparr> \<lparr>pending = [], eof_with_data = False\<rparr>)
          ''{manifest}'' = Inr m \<and>
        [sample_layer ''sha256:aa'', sample_layer ''sha256:bb'', sample_layer ''sha256:cc'']
          = Layers m @ [Config m])"
proof -
  have h: "getManifest (sample_env [] \<lparr>UploadId = ''u1'', PartSize = 2\<rparr> \<lparr>pending = [], eof_with_data = False\<rparr>)
     ''src'' ''latest'' [] =
     (Done (''{manifest}'', [sample_layer ''sha256:aa'', sample_layer ''sha256:bb'', sample_layer ''sha256:cc'']),
      [BatchGetImage ''src'' (ImageTag ''latest'')])"
    by (simp add: getManifest_def sample_env_def sample_manifest_def Cut_def)
  from getManifest_layers_then_config[OF h] h show ?thesis by blast
qed

section \<open>The whole run\<close>

text \<open>The requests a transfer adds to the trace never publish a manifest.\<close>

lemma copyParts_trace:
  assumes "copyParts env destRepo dig up body b pfb sha log = Some r"
  shows "\<exists>ext. snd r = log @ ext \<and> \<not> list_ex is_PutImage ext"
proof (rule copyParts.raw_induct
    [where P = "\<lambda>env destRepo dig up body b pfb sha log r.
                  \<exists>ext. snd r = log @ ext \<and> \<not> list_ex is_PutImage ext", OF _ assms], goal_cases)
  case (1 copyParts' env destRepo dig up body b pfb sha log r)
  show ?case
  proof (cases "downloadPart dig (PartSize up) body b 0")
    case None
    with 1(2) show ?thesis by simp
  next
    case (Some o1)
    show ?thesis
    proof (cases o1)
      case (Failed e)
      with Some 1(2) show ?thesis by auto
    next
      case (Panicked m)
      with Some 1(2) show ?thesis by auto
    next
      case (Done st)
      obtain body' b' partSize lastPart where st: "st = (body', b', partSize, lastPart)"
        by (cases st) auto
      show ?thesis
      proof (cases "partSize = 0")
        case True
        with Some Done st 1(2) show ?thesis by (auto split: if_splits)
      next
        case False
        let ?call = "UploadLayerPart (take partSize b') pfb (pfb + word_of_nat partSize - 1) destRepo (UploadId up)"
        show ?thesis
        proof (cases "uploadLayerPart env (log @ [?call])")
          case (Some err)
          with \<open>downloadPart dig (PartSize up) body b 0 = Some o1\<close> Done st False 1(2)
          have "snd r = log @ [?call]" by (auto simp: Let_def)
          then show ?thesis by (auto simp: is_PutImage_def)
        next
          case None
          show ?thesis
          proof (cases lastPart)
            case True
            with None \<open>downloadPart dig (PartSize up) body b 0 = Some o1\<close> Done st False 1(2)
            have "snd r = log @ [?call]" by (auto simp: Let_def)
            then show ?thesis by (auto simp: is_PutImage_def)
          next
            case nl: False
            with None \<open>downloadPart dig (PartSize up) body b 0 = Some o1\<close> Done st False 1(2)
            have "copyParts' env destRepo dig up body' b' (pfb + word_of_nat partSize)
                    (Write sha (take partSize b')) (log @ [?call]) = Some r"
              by (auto simp: Let_def)
            from 1(1)[OF this] obtain ext where "snd r = (log @ [?call]) @ ext" "\<not> list_ex is_PutImage ext"
              by blast
            then have "snd r = log @ (?call # ext) \<and> \<not> list_ex is_PutImage (?call # ext)"
              by (simp add: is_PutImage_def)
            then show ?thesis by blast
          qed
        qed
      qed
    qed
  qed
qed

lemma copyLayer_trace:
  assumes "copyLayer env sourceRepo destRepo dig log = Some r"
  shows "\<exists>ext. snd r = log @ ext \<and> \<not> list_ex is_PutImage ext"
proof -
  let ?g = "GetDownloadUrlForLayer sourceRepo dig"
  let ?i = "InitiateLayerUpload destRepo"
  show ?thesis
  proof (cases "getDownloadUrlForLayer env (log @ [?g])")
    case (Inl e)
    with assms have "snd r = log @ [?g]" by (auto simp: copyLayer_def)
    then show ?thesis by (auto simp: is_PutImage_def)
  next
    case (Inr dlUrl)
    note g = this
    show ?thesis
    proof (cases "initiateLayerUpload env (log @ [?g, ?i])")
      case (Inl e)
      with g assms have "snd r = log @ [?g, ?i]" by (auto simp: copyLayer_def)
      then show ?thesis by (auto simp: is_PutImage_def)
    next
      case (Inr up)
      note i = this
      let ?log3 = "log @ [?g, ?i, HttpGet dlUrl]"
      have p3: "\<not> list_ex is_PutImage [?g, ?i, HttpGet dlUrl]" by (simp add: is_PutImage_def)
      show ?thesis
      proof (cases "httpGet env ?log3")
        case (Inl e)
        with g i assms have "snd r = ?log3" by (auto simp: copyLayer_def)
        with p3 show ?thesis by blast
      next
        case (Inr body)
        note h = this
        show ?thesis
        proof (cases "PartSize up < 0")
          case True
          with g i h assms have "snd r = ?log3" by (auto simp: copyLayer_def)
          with p3 show ?thesis by blast
        next
          case False
          show ?thesis
          proof (cases "copyParts env destRepo dig up body (replicate (nat (PartSize up)) 0) 0 sha256_New ?log3")
            case None
            with g i h False assms show ?thesis by (simp add: copyLayer_def)
          next
            case (Some r4)
            from copyParts_trace[OF Some] obtain ext where
              e: "snd r4 = ?log3 @ ext" "\<not> list_ex is_PutImage ext" by blast
            obtain o4 log4 where r4: "r4 = (o4, log4)" by (cases r4) auto
            show ?thesis
            proof (cases o4)
              case (Done sha)
              let ?c = "CompleteLayerUpload destRepo (UploadId up) [UploadId up @ '':'' @ fmt_064x (Sum env sha)]"
              from Done g i h False assms Some r4
              have "snd r = log4 @ [?c]"
                by (auto simp: copyLayer_def Let_def split: option.splits)
              with e r4 have "snd r = log @ ([?g, ?i, HttpGet dlUrl] @ ext @ [?c])" by simp
              moreover have "\<not> list_ex is_PutImage ([?g, ?i, HttpGet dlUrl] @ ext @ [?c])"
                using e(2) by (simp add: is_PutImage_def)
              ultimately show ?thesis by blast
            next
              case (Failed e')
              with g i h False assms Some r4 have "snd r = log4" by (auto simp: copyLayer_def)
              with e r4 have "snd r = log @ ([?g, ?i, HttpGet dlUrl] @ ext)" by simp
              moreover have "\<not> list_ex is_PutImage ([?g, ?i, HttpGet dlUrl] @ ext)"
                using e(2) by (simp add: is_PutImage_def)
              ultimately show ?thesis by blast
            next
              case (Panicked m)
              with g i h False assms Some r4 have "snd r = log4" by (auto simp: copyLayer_def)
              with e r4 have "snd r = log @ ([?g, ?i, HttpGet dlUrl] @ ext)" by simp
              moreover have "\<not> list_ex is_PutImage ([?g, ?i, HttpGet dlUrl] @ ext)"
                using e(2) by (simp add: is_PutImage_def)
              ultimately show ?thesis by blast
            qed
          qed
        qed
      qed
    qed
  qed
qed

lemma copyLayers_trace:
  "copyLayers env sourceRepo destRepo layers log = Some r \<Longrightarrow>
     \<exists>ext. snd r = log @ ext \<and> \<not> list_ex is_PutImage ext"
proof (induction layers arbitrary: log)
  case Nil
  then show ?case by auto
next
  case (Cons l ls)
  show ?case
  proof (cases "copyLayer env sourceRepo destRepo (Digest l) log")
    case None
    with Cons.prems show ?thesis by simp
  next
    case (Some r1)
    from copyLayer_trace[OF Some] obtain ext1 where
      e1: "snd r1 = log @ ext1" "\<not> list_ex is_PutImage ext1" by blast
    obtain o1 log1 where r1: "r1 = (o1, log1)" by (cases r1) auto
    show ?thesis
    proof (cases o1)
      case (Done u)
      with Some r1 Cons.prems have "copyLayers env sourceRepo destRepo ls log1 = Some r" by simp
      from Cons.IH[OF this] obtain ext where "snd r = log1 @ ext" "\<not> list_ex is_PutImage ext" by blast
      with e1 r1 have "snd r = log @ (ext1 @ ext) \<and> \<not> list_ex is_PutImage (ext1 @ ext)" by simp
      then show ?thesis by blast
    next
      case (Failed e)
      with Some r1 Cons.prems e1 show ?thesis by auto
    next
      case (Panicked m)
      with Some r1 Cons.prems e1 show ?thesis by auto
    qed
  qed
qed

lemma copyLayers_append:
  "copyLayers env sourceRepo destRepo pre log = Some (Done (), log1) \<Longrightarrow>
     copyLayers env sourceRepo destRepo (pre @ rest) log = copyLayers env sourceRepo destRepo rest log1"
proof (induction pre arbitrary: log)
  case Nil
  then show ?case by simp
next
  case (Cons l ls)
  then show ?case
    by (auto split: option.splits outcome.splits prod.splits)
qed

lemma getManifest_trace:
  "\<exists>imageId. snd (getManifest env sourceRepo ref log) = log @ [BatchGetImage sourceRepo imageId]"
  by (auto simp: getManifest_def Let_def split: sum.splits prod.splits)

lemma getManifest_Done:
  "getManifest env sourceRepo ref log = (Done (raw, blobs), log') \<Longrightarrow>
     batchGetImage env log' = Inr [raw]"
  by (auto simp: getManifest_def Let_def length_Suc_conv split: sum.splits prod.splits if_splits)

lemma checkLayerAvails_trace:
  "snd (checkLayerAvails env destRepo layers log) =
     log @ [BatchCheckLayerAvailability destRepo (map Digest layers)]"
  by (auto simp: checkLayerAvails_def Let_def split: sum.splits)

lemma putManifest_trace:
  "snd (putManifest env destRepo newTag mf log) =
     log @ [PutImage destRepo mf (if newTag \<noteq> '''' then Some newTag else None)]"
  by (simp add: putManifest_def Let_def split: option.splits)

lemma split_789: "split_parts (nat (PartSize sample_upload)) (content (whole_reader [7, 8, 9])) = [[7, 8], [9]]"
  by (simp add: sample_upload_def content_def whole_reader_def split_parts.simps)

text \<open>
  Claim C5. When the transfer of blob N of the plan returns an error, \<^verbatim>\<open>copyLayers\<close>
  returns that error at once: the trace ends with the requests of the failed transfer, so
  no blob after N is transferred; and \<^verbatim>\<open>main\<close> ends with that error as a fatal one
  without any \<^verbatim>\<open>PutImage\<close> request in its trace.
\<close>

theorem transfer_failure_aborts_run:
  assumes "Args = prog # sourceRepo # imageDigestOrTag # destRepo # rest" and "length rest \<le> 1"
    and "getManifest env sourceRepo imageDigestOrTag [] = (Done (mf, layers), log1)"
    and "checkLayerAvails env destRepo layers log1 = (Done (pre @ l # post), log2)"
    and "copyLayers env sourceRepo destRepo pre log2 = Some (Done (), log3)"
    and "copyLayer env sourceRepo destRepo (Digest l) log3 = Some (Failed err, log4)"
  shows "copyLayers env sourceRepo destRepo (pre @ l # post) log2 =
           Some (Failed (Wrap ''copyLayer: %w'' [] err), log4) \<and>
         main env Args = Some (Fatal (Wrap ''copyLayer: %w'' [] err), log4) \<and>
         \<not> list_ex is_PutImage log4"
proof -
  have cl: "copyLayers env sourceRepo destRepo (pre @ l # post) log2 =
              Some (Failed (Wrap ''copyLayer: %w'' [] err), log4)"
    using copyLayers_append[OF assms(5), of "l # post"] assms(6) by simp
  have m: "main env Args = Some (Fatal (Wrap ''copyLayer: %w'' [] err), log4)"
    using assms(2) by (simp add: main_def Let_def assms(1,3,4) cl)
  from getManifest_trace[of env sourceRepo imageDigestOrTag "[]"] assms(3)
  obtain imageId where l1: "log1 = [BatchGetImage sourceRepo imageId]" by auto
  from checkLayerAvails_trace[of env destRepo layers log1] assms(4)
  have l2: "log2 = log1 @ [BatchCheckLayerAvailability destRepo (map Digest layers)]" by simp
  from copyLayers_trace[OF assms(5)] obtain ext3 where
    l3: "log3 = log2 @ ext3" "\<not> list_ex is_PutImage ext3" by auto
  from copyLayer_trace[OF assms(6)] obtain ext4 where
    l4: "log4 = log3 @ ext4" "\<not> list_ex is_PutImage ext4" by auto
  have "\<not> list_ex is_PutImage log4"
    using l1 l2 l3 l4 by (simp add: is_PutImage_def)
  with cl m show ?thesis by blast
qed

theorem transfer_failure_aborts_run_witness:
  "copyLayers (deny_download ''src'' ''sha256:bb'' (sample_env [] sample_upload (whole_reader [7, 8, 9])))
     ''src'' ''dst'' ([sample_layer ''sha256:aa''] @ sample_layer ''sha256:bb'' # [sample_layer ''sha256:cc''])
     [BatchGetImage ''src'' (ImageTag ''latest''),
      BatchCheckLayerAvailability ''dst'' [''sha256:aa'', ''sha256:bb'', ''sha256:cc'']] =
     Some (Failed (Wrap ''copyLayer: %w'' []
                     (Wrap ''GetDownloadUrlForLayer(%s): %w'' [Str ''sha256:bb'']
                        (ExtErr ''LayerInaccessibleException''))),
           [BatchGetImage ''src'' (ImageTag ''latest''),
            BatchCheckLayerAvailability ''dst'' [''sha256:aa'', ''sha256:bb'', ''sha256:cc''],
            GetDownloadUrlForLayer ''src'' ''sha256:aa'', InitiateLayerUpload ''dst'',
            HttpGet ''https://blobs/1'',
            UploadLayerPart [7, 8] 0 1 ''dst'' ''u1'', UploadLayerPart [9] 2 2 ''dst'' ''u1'',
            commit_call ''dst'' sample_upload (sample_digest ''sha256'' [7, 8, 9]),
            GetDownloadUrlForLayer ''src'' ''sha256:bb'']) \<and>
   main (deny_download ''src'' ''sha256:bb'' (sample_env [] sample_upload (whole_reader [7, 8, 9])))
     [''ecr-copy'', ''src'', ''latest'', ''dst''] =
     Some (Fatal (Wrap ''copyLayer: %w'' []
                    (Wrap ''GetDownloadUrlForLayer(%s): %w'' [Str ''sha256:bb'']
                       (ExtErr ''LayerInaccessibleException''))),
           [BatchGetImage ''src'' (ImageTag ''latest''),
            BatchCheckLayerAvailability ''dst'' [''sha256:aa'', ''sha256:bb'', ''sha256:cc''],
            GetDownloadUrlForLayer ''src'' ''sha256:aa'', InitiateLayerUpload ''dst'',
            HttpGet ''https://blobs/1'',
            UploadLayerPart [7, 8] 0 1 ''dst'' ''u1'', UploadLayerPart [9] 2 2 ''dst'' ''u1'',
            commit_call ''dst'' sample_upload (sample_digest ''sha256'' [7, 8, 9]),
            GetDownloadUrlForLayer ''src'' ''sha256:bb'']) \<and>
   \<not> list_ex is_PutImage
       [BatchGetImage ''src'' (ImageTag ''latest''),
        BatchCheckLayerAvailability ''dst'' [''sha256:aa'', ''sha256:bb'', ''sha256:cc''],
        GetDownloadUrlForLayer ''src'' ''sha256:aa'', InitiateLayerUpload ''dst'',
        HttpGet ''https://blobs/1'',
        UploadLayerPart [7, 8] 0 1 ''dst'' ''u1'', UploadLayerPart [9] 2 2 ''dst'' ''u1'',
        commit_call ''dst'' sample_upload (sample_digest ''sha256'' [7, 8, 9]),
        GetDownloadUrlForLayer ''src'' ''sha256:bb'']"
proof -
  let ?E = "deny_download ''src'' ''sha256:bb'' (sample_env [] sample_upload (whole_reader [7, 8, 9]))"
  let ?log1 = "[BatchGetImage ''src'' (ImageTag ''latest'')]"
  let ?log2 = "[BatchGetImage ''src'' (ImageTag ''latest''),
                BatchCheckLayerAvailability ''dst'' [''sha256:aa'', ''sha256:bb'', ''sha256:cc'']]"
  let ?log3 = "[BatchGetImage ''src'' (ImageTag ''latest''),
            BatchCheckLayerAvailability ''dst'' [''sha256:aa'', ''sha256:bb'', ''sha256:cc''],
            GetDownloadUrlForLayer ''src'' ''sha256:aa'', InitiateLayerUpload ''dst'',
            HttpGet ''https://blobs/1'',
            UploadLayerPart [7, 8] 0 1 ''dst'' ''u1'', UploadLayerPart [9] 2 2 ''dst'' ''u1'',
            commit_call ''dst'' sample_upload (sample_digest ''sha256'' [7, 8, 9])]"
  have a: "[''ecr-copy'', ''src'', ''latest'', ''dst''] = ''ecr-copy'' # ''src'' # ''latest'' # ''dst'' # []"
    and b: "length ([] :: string list) \<le> 1" by simp_all
  have g: "getManifest ?E ''src'' ''latest'' [] =
             (Done (''{manifest}'', [sample_layer ''sha256:aa'', sample_layer ''sha256:bb'',
                                     sample_layer ''sha256:cc'']), ?log1)"
    by (simp add: getManifest_def deny_download_def sample_env_def sample_manifest_def Cut_def)
  have c: "checkLayerAvails ?E ''dst'' [sample_layer ''sha256:aa'', sample_layer ''sha256:bb'',
                                        sample_layer ''sha256:cc''] ?log1 =
             (Done ([sample_layer ''sha256:aa''] @ sample_layer ''sha256:bb'' # [sample_layer ''sha256:cc'']),
              ?log2)"
    by (simp add: checkLayerAvails_def deny_download_def sample_env_def sample_layer_def lookup_bool_def)
  have o: "opens ?E ''src'' ''dst'' ''sha256:aa'' ?log2 ''https://blobs/1'' sample_upload (whole_reader [7, 8, 9])"
    "0 < PartSize sample_upload" "clean (whole_reader [7, 8, 9])"
    by (simp_all add: opens_def session_calls_def deny_download_def sample_env_def sample_upload_def
          clean_def whole_reader_def)
  have ok: "\<And>h. uploadLayerPart ?E h = None" by (simp add: deny_download_def sample_env_def)
  have "copyLayer ?E ''src'' ''dst'' ''sha256:aa'' ?log2 = Some (Done (), ?log3)"
    unfolding copyLayer_clean[OF o ok] split_789
    by (simp add: session_calls_def commit_result_def content_def whole_reader_def
          deny_download_def sample_env_def sample_upload_def)
  then have p: "copyLayers ?E ''src'' ''dst'' [sample_layer ''sha256:aa''] ?log2 = Some (Done (), ?log3)"
    by (simp add: sample_layer_def)
  have f: "copyLayer ?E ''src'' ''dst'' (Digest (sample_layer ''sha256:bb'')) ?log3 =
             Some (Failed (Wrap ''GetDownloadUrlForLayer(%s): %w'' [Str ''sha256:bb'']
                             (ExtErr ''LayerInaccessibleException'')),
                   ?log3 @ [GetDownloadUrlForLayer ''src'' ''sha256:bb''])"
    by (simp add: copyLayer_def sample_layer_def deny_download_def)
  show ?thesis
    using transfer_failure_aborts_run[OF a b g c p f] by simp
qed

text \<open>
  Claim C9. Whenever a run publishes a manifest, the bytes it publishes are exactly the
  string that \<^verbatim>\<open>BatchGetImage\<close> returned for the single image found (the first
  request of the run), and the publication is the last request and the only one of its
  kind: the parsed manifest never flows into the published bytes.
\<close>

theorem published_manifest_is_fetched_bytes:
  assumes "main env Args = Some (ex, tr)" and "PutImage repo m tag \<in> set tr"
  shows "\<exists>imageId. batchGetImage env [BatchGetImage (Args ! 1) imageId] = Inr [m] \<and>
                   hd tr = BatchGetImage (Args ! 1) imageId \<and>
                   last tr = PutImage repo m tag \<and> repo = Args ! 3 \<and>
                   \<not> list_ex is_PutImage (butlast tr)"
proof -
  have len: "\<not> (length Args < 4 \<or> length Args > 5)"
    using assms by (auto simp: main_def)
  obtain o1 log1 where g: "getManifest env (Args ! 1) (Args ! 2) [] = (o1, log1)"
    by (cases "getManifest env (Args ! 1) (Args ! 2) []") auto
  from getManifest_trace[of env "Args ! 1" "Args ! 2" "[]"] g
  obtain imageId where l1: "log1 = [BatchGetImage (Args ! 1) imageId]" by auto
  have np1: "\<not> list_ex is_PutImage log1" using l1 by (simp add: is_PutImage_def)
  have put: "is_PutImage (PutImage repo m tag)" by (simp add: is_PutImage_def)
  show ?thesis
  proof (cases o1)
    case (Failed e)
    with g len assms(1) have "tr = log1" by (simp add: main_def Let_def)
    with np1 assms(2) put show ?thesis by (auto simp: list_ex_iff)
  next
    case (Panicked msg)
    with g len assms(1) have "tr = log1" by (simp add: main_def Let_def)
    with np1 assms(2) put show ?thesis by (auto simp: list_ex_iff)
  next
    case (Done res)
    obtain mf layers where res: "res = (mf, layers)" by (cases res) auto
    from getManifest_Done[of env "Args ! 1" "Args ! 2" "[]" mf layers log1] g Done res l1
    have fetched: "batchGetImage env [BatchGetImage (Args ! 1) imageId] = Inr [mf]" by simp
    obtain o2 log2 where c: "checkLayerAvails env (Args ! 3) layers log1 = (o2, log2)"
      by (cases "checkLayerAvails env (Args ! 3) layers log1") auto
    from checkLayerAvails_trace[of env "Args ! 3" layers log1] c
    have l2: "log2 = log1 @ [BatchCheckLayerAvailability (Args ! 3) (map Digest layers)]" by simp
    have np2: "\<not> list_ex is_PutImage log2" using l1 l2 by (simp add: is_PutImage_def)
    show ?thesis
    proof (cases o2)
      case (Failed e)
      with g Done res c len assms(1) have "tr = log2" by (simp add: main_def Let_def)
      with np2 assms(2) put show ?thesis by (auto simp: list_ex_iff)
    next
      case (Panicked msg)
      with g Done res c len assms(1) have "tr = log2" by (simp add: main_def Let_def)
      with np2 assms(2) put show ?thesis by (auto simp: list_ex_iff)
    next
      case d2: (Done needed)
      show ?thesis
      proof (cases "copyLayers env (Args ! 1) (Args ! 3) needed log2")
        case None
        with g Done res c d2 len assms(1) show ?thesis by (simp add: main_def Let_def)
      next
        case (Some r3)
        obtain o3 log3 where r3: "r3 = (o3, log3)" by (cases r3) auto
        from copyLayers_trace[OF Some] r3 obtain ext where
          l3: "log3 = log2 @ ext" "\<not> list_ex is_PutImage ext" by auto
        have np3: "\<not> list_ex is_PutImage log3" using l3 np2 by simp
        show ?thesis
        proof (cases o3)
          case (Failed e)
          with g Done res c d2 Some r3 len assms(1) have "tr = log3" by (simp add: main_def Let_def)
          with np3 assms(2) put show ?thesis by (auto simp: list_ex_iff)
        next
          case (Panicked msg)
          with g Done res c d2 Some r3 len assms(1) have "tr = log3" by (simp add: main_def Let_def)
          with np3 assms(2) put show ?thesis by (auto simp: list_ex_iff)
        next
          case d3: (Done u)
          define newTag where "newTag = (if length Args = 5 then Args ! 4 else '''')"
          let ?p = "PutImage (Args ! 3) mf (if newTag \<noteq> '''' then Some newTag else None)"
          obtain o4 log4 where p: "putManifest env (Args ! 3) newTag mf log3 = (o4, log4)"
            by (cases "putManifest env (Args ! 3) newTag mf log3") auto
          from putManifest_trace[of env "Args ! 3" newTag mf log3] p
          have l4: "log4 = log3 @ [?p]" by simp
          have "tr = log4"
            using g Done res c d2 Some r3 d3 len assms(1) p
            by (cases o4) (simp_all add: main_def Let_def newTag_def[symmetric])
          with l4 have tr: "tr = log3 @ [?p]" by simp
          with assms(2) np3 put have eq: "PutImage repo m tag = ?p"
            by (auto simp: list_ex_iff)
          have "hd tr = BatchGetImage (Args ! 1) imageId" using tr l3 l2 l1 by simp
          moreover have "last tr = PutImage repo m tag" using tr eq by simp
          moreover have "\<not> list_ex is_PutImage (butlast tr)" using tr np3 by simp
          moreover have "batchGetImage env [BatchGetImage (Args ! 1) imageId] = Inr [m]"
            using fetched eq by simp
          moreover have "repo = Args ! 3" using eq by simp
          ultimately show ?thesis by blast
        qed
      qed
    qed
  qed
qed

theorem published_manifest_is_fetched_bytes_witness:
  "main (sample_env [\<lparr>LayerAvailability = ''AVAILABLE'', LayerDigest = ''sha256:aa''\<rparr>]
           sample_upload (whole_reader [7, 8, 9]))
     [''ecr-copy'', ''src'', ''latest'', ''dst'', ''v2''] =
     Some (Success,
           [BatchGetImage ''src'' (ImageTag ''latest''),
            BatchCheckLayerAvailability ''dst'' [''sha256:aa'', ''sha256:bb'', ''sha256:cc''],
            GetDownloadUrlForLayer ''src'' ''sha256:bb'', InitiateLayerUpload ''dst'',
            HttpGet ''https://blobs/1'',
            UploadLayerPart [7, 8] 0 1 ''dst'' ''u1'', UploadLayerPart [9] 2 2 ''dst'' ''u1'',
            commit_call ''dst'' sample_upload (sample_digest ''sha256'' [7, 8, 9]),
            GetDownloadUrlForLayer ''src'' ''sha256:cc'', InitiateLayerUpload ''dst'',
            HttpGet ''https://blobs/1'',
            UploadLayerPart [7, 8] 0 1 ''dst'' ''u1'', UploadLayerPart [9] 2 2 ''dst'' ''u1'',
            commit_call ''dst'' sample_upload (sample_digest ''sha256'' [7, 8, 9]),
            PutImage ''dst'' ''{manifest}'' (Some ''v2'')]) \<and>
   (\<exists>imageId.
      batchGetImage (sample_env [\<lparr>LayerAvailability = ''AVAILABLE'', LayerDigest = ''sha256:aa''\<rparr>]
                       sample_upload (whole_reader [7, 8, 9]))
        [BatchGetImage ''src'' imageId] = Inr [''{manifest}''])"
proof -
  let ?E = "sample_env [\<lparr>LayerAvailability = ''AVAILABLE'', LayerDigest = ''sha256:aa''\<rparr>]
              sample_upload (whole_reader [7, 8, 9])"
  let ?log1 = "[BatchGetImage ''src'' (ImageTag ''latest'')]"
  let ?log2 = "[BatchGetImage ''src'' (ImageTag ''latest''),
                BatchCheckLayerAvailability ''dst'' [''sha256:aa'', ''sha256:bb'', ''sha256:cc'']]"
  let ?log3 = "[BatchGetImage ''src'' (ImageTag ''latest''),
            BatchCheckLayerAvailability ''dst'' [''sha256:aa'', ''sha256:bb'', ''sha256:cc''],
            GetDownloadUrlForLayer ''src'' ''sha256:bb'', InitiateLayerUpload ''dst'',
            HttpGet ''https://blobs/1'',
            UploadLayerPart [7, 8] 0 1 ''dst'' ''u1'', UploadLayerPart [9] 2 2 ''dst'' ''u1'',
            commit_call ''dst'' sample_upload (sample_digest ''sha256'' [7, 8, 9])]"
  let ?log4 = "[BatchGetImage ''src'' (ImageTag ''latest''),
            BatchCheckLayerAvailability ''dst'' [''sha256:aa'', ''sha256:bb'', ''sha256:cc''],
            GetDownloadUrlForLayer ''src'' ''sha256:bb'', InitiateLayerUpload ''dst'',
            HttpGet ''https://blobs/1'',
            UploadLayerPart [7, 8] 0 1 ''dst'' ''u1'', UploadLayerPart [9] 2 2 ''dst'' ''u1'',
            commit_call ''dst'' sample_upload (sample_digest ''sha256'' [7, 8, 9]),
            GetDownloadUrlForLayer ''src'' ''sha256:cc'', InitiateLayerUpload ''dst'',
            HttpGet ''https://blobs/1'',
            UploadLayerPart [7, 8] 0 1 ''dst'' ''u1'', UploadLayerPart [9] 2 2 ''dst'' ''u1'',
            commit_call ''dst'' sample_upload (sample_digest ''sha256'' [7, 8, 9])]"
  have g: "getManifest ?E ''src'' ''latest'' [] =
             (Done (''{manifest}'', [sample_layer ''sha256:aa'', sample_layer ''sha256:bb'',
                                     sample_layer ''sha256:cc'']), ?log1)"
    by (simp add: getManifest_def sample_env_def sample_manifest_def Cut_def)
  have c: "checkLayerAvails ?E ''dst'' [sample_layer ''sha256:aa'', sample_layer ''sha256:bb'',
                                        sample_layer ''sha256:cc''] ?log1 =
             (Done [sample_layer ''sha256:bb'', sample_layer ''sha256:cc''], ?log2)"
    by (simp add: checkLayerAvails_def sample_env_def sample_layer_def lookup_bool_def)
  have ok: "\<And>h. uploadLayerPart ?E h = None" by (simp add: sample_env_def)
  have o: "opens ?E ''src'' ''dst'' dig lg ''https://blobs/1'' sample_upload (whole_reader [7, 8, 9])"
    "0 < PartSize sample_upload" "clean (whole_reader [7, 8, 9])" for dig lg
    by (simp_all add: opens_def sample_env_def sample_upload_def clean_def whole_reader_def)
  have c1: "copyLayer ?E ''src'' ''dst'' ''sha256:bb'' ?log2 = Some (Done (), ?log3)"
    unfolding copyLayer_clean[OF o ok] split_789
    by (simp add: session_calls_def commit_result_def content_def whole_reader_def
          sample_env_def sample_upload_def)
  have c2: "copyLayer ?E ''src'' ''dst'' ''sha256:cc'' ?log3 = Some (Done (), ?log4)"
    unfolding copyLayer_clean[OF o ok] split_789
    by (simp add: session_calls_def commit_result_def content_def whole_reader_def
          sample_env_def sample_upload_def)
  have cs: "copyLayers ?E ''src'' ''dst'' [sample_layer ''sha256:bb'', sample_layer ''sha256:cc''] ?log2 =
              Some (Done (), ?log4)"
    using c1 c2 by (simp add: sample_layer_def)
  have pm: "putManifest ?E ''dst'' ''v2'' ''{manifest}'' ?log4 =
              (Done (), ?log4 @ [PutImage ''dst'' ''{manifest}'' (Some ''v2'')])"
    by (simp add: putManifest_def sample_env_def)
  have run: "main ?E [''ecr-copy'', ''src'', ''latest'', ''dst'', ''v2''] =
               Some (Success, ?log4 @ [PutImage ''dst'' ''{manifest}'' (Some ''v2'')])"
    by (simp add: main_def Let_def g c cs pm del: copyLayers.simps)
  have put: "PutImage ''dst'' ''{manifest}'' (Some ''v2'') \<in>
               set (?log4 @ [PutImage ''dst'' ''{manifest}'' (Some ''v2'')])"
    by simp
  from published_manifest_is_fetched_bytes[OF run put] obtain imageId where
    "batchGetImage ?E [BatchGetImage ([''ecr-copy'', ''src'', ''latest'', ''dst'', ''v2''] ! 1) imageId] =
       Inr [''{manifest}'']"
    by blast
  then have "\<exists>imageId. batchGetImage ?E [BatchGetImage ''src'' imageId] = Inr [''{manifest}'']"
    by auto
  with run show ?thesis by simp
qed

end
